theory Spec2Isabelle
  imports Complex_Main
begin

section \<open>OpusPlayer: the jitter buffer and playback scheduler of opus-player.ts\<close>

text \<open>
  The development embeds \<^verbatim>\<open>src/ts/audio/opus-player.ts\<close>. Conventions of the embedding:
  \<^item> The numeric options, sample rates and array lengths are natural numbers (JavaScript
    numbers that are non-negative integers below \<open>2^32\<close>); the non-finite values that the
    arithmetic of \<^verbatim>\<open>flush\<close> produces from them (a division by zero) are kept, as
    \<open>Infinity\<close> and \<open>NaN\<close>.
  \<^item> Times (\<^verbatim>\<open>startTime\<close>, \<^verbatim>\<open>audioCtx.currentTime\<close>, \<^verbatim>\<open>AudioBuffer.duration\<close>) are
    real numbers: the rounding of IEEE doubles is not part of the embedding.
  \<^item> A Float32 sample is a value that is only copied, never computed with; reading a typed
    array out of range gives \<^verbatim>\<open>undefined\<close>, which a Float32Array stores as \<open>NaN\<close>.
  \<^item> The decoder and the Web Audio context are collaborators outside the file. The decoder
    is a parameter of \<^verbatim>\<open>feed\<close>; the audio context is its clock (an argument of
    \<^verbatim>\<open>flush\<close>), its \<^verbatim>\<open>createBuffer\<close> and the list of buffers handed to \<^verbatim>\<open>start\<close>.
  \<^item> An exception leaves the assignments made before it in place, so a call returns an
    \<open>outcome\<close> that carries the state in both cases.
\<close>

subsection \<open>Values\<close>

datatype sample = F32 real | NaN32

type_synonym byte = nat

datatype error = TypeError | RangeError | NotSupportedError | DecodeError

text \<open>
  The values \<^verbatim>\<open>feed\<close> can be called with, as far as \<^verbatim>\<open>isTypedArray\<close> and the
  \<^verbatim>\<open>Uint8Array\<close> constructor look at them. \<open>JObject\<close> is any object, given by the three
  properties read from it (an absent property is \<open>JUndefined\<close>); typed arrays and DataViews
  are such objects. A number is an integer, and \<open>byteOffset\<close> is absent or a number.
\<close>

datatype js_value =
    JUndefined
  | JNull
  | JBoolean bool
  | JNumber int
  | JString string
  | JArrayBuffer "byte list"
  | JObject js_value js_value "int option"

fun truthy :: "js_value \<Rightarrow> bool" where
  "truthy JUndefined = False"
| "truthy JNull = False"
| "truthy (JBoolean b) = b"
| "truthy (JNumber n) = (n \<noteq> 0)"
| "truthy (JString s) = (s \<noteq> [])"
| "truthy (JArrayBuffer b) = True"
| "truthy (JObject bl bf bo) = True"

text \<open>Property reads \<^verbatim>\<open>data.byteLength\<close>, \<^verbatim>\<open>data.buffer\<close>, \<^verbatim>\<open>data.byteOffset\<close> on a truthy value.\<close>

fun get_byteLength :: "js_value \<Rightarrow> js_value" where
  "get_byteLength (JObject bl bf bo) = bl"
| "get_byteLength (JArrayBuffer b) = JNumber (int (length b))"
| "get_byteLength _ = JUndefined"

fun get_buffer :: "js_value \<Rightarrow> js_value" where
  "get_buffer (JObject bl bf bo) = bf"
| "get_buffer _ = JUndefined"

fun get_byteOffset :: "js_value \<Rightarrow> int option" where
  "get_byteOffset (JObject bl bf bo) = bo"
| "get_byteOffset _ = None"

fun is_number :: "js_value \<Rightarrow> bool" where
  "is_number (JNumber n) = True"
| "is_number _ = False"

fun is_ArrayBuffer :: "js_value \<Rightarrow> bool" where
  "is_ArrayBuffer (JArrayBuffer b) = True"
| "is_ArrayBuffer _ = False"

text \<open>
  \<^verbatim>\<open>!!data && typeof data.byteLength === 'number' && data.buffer instanceof ArrayBuffer\<close>
\<close>

definition isTypedArray :: "js_value \<Rightarrow> bool" where
  "isTypedArray data \<longleftrightarrow>
     truthy data \<and> is_number (get_byteLength data) \<and> is_ArrayBuffer (get_buffer data)"

text \<open>
  \<^verbatim>\<open>new Uint8Array(buffer, byteOffset, length)\<close>: both indices go through \<open>ToIndex\<close>, which
  raises a RangeError on a negative integer (and reads \<^verbatim>\<open>undefined\<close> as 0), and the view
  must end inside the buffer.
\<close>

definition to_index :: "int option \<Rightarrow> error + nat" where
  "to_index v = (case v of None \<Rightarrow> Inr 0
                 | Some n \<Rightarrow> if n < 0 then Inl RangeError else Inr (nat n))"

definition new_Uint8Array :: "byte list \<Rightarrow> int option \<Rightarrow> int option \<Rightarrow> error + byte list" where
  "new_Uint8Array buffer byteOffset len =
     (case to_index byteOffset of Inl e \<Rightarrow> Inl e
      | Inr off \<Rightarrow>
         (case to_index len of Inl e \<Rightarrow> Inl e
          | Inr n \<Rightarrow>
             if off + n > length buffer then Inl RangeError
             else Inr (take n (drop off buffer))))"

text \<open>The packet view of line 65, for a value that passed \<open>isTypedArray\<close>.\<close>

definition packet_of :: "js_value \<Rightarrow> error + byte list" where
  "packet_of data =
     (case (get_buffer data, get_byteLength data) of
        (JArrayBuffer b, JNumber n) \<Rightarrow> new_Uint8Array b (get_byteOffset data) (Some n)
      | _ \<Rightarrow> Inl TypeError)"

text \<open>A Float32Array read \<^verbatim>\<open>xs[i]\<close> whose result is stored into a Float32Array.\<close>

definition read_f32 :: "sample list \<Rightarrow> nat \<Rightarrow> sample" where
  "read_f32 xs i = (if i < length xs then xs ! i else NaN32)"

subsection \<open>The player\<close>

datatype encoding = Int8 | Int16 | Int32 | Float32

record options =
  encoding :: encoding
  channels :: nat
  sampleRate :: nat
  flushingTime :: nat

text \<open>The result of \<^verbatim>\<open>decoder.decodeFrame\<close>: \<^verbatim>\<open>{ channelData, sampleRate }\<close>.\<close>

record decoded =
  channelData :: "sample list list"
  frameRate :: nat

type_synonym decoder = "byte list \<Rightarrow> error + decoded"

record audio_buffer =
  numberOfChannels :: nat
  buffer_length :: nat
  buffer_rate :: nat
  channel_data :: "sample list list"

text \<open>
  One call of \<^verbatim>\<open>src.start(this.startTime)\<close>: the buffer, the start time handed to the sink,
  and the sink's \<^verbatim>\<open>currentTime\<close> at that moment.
\<close>

record scheduled =
  src_buffer :: audio_buffer
  src_start :: real
  src_now :: real

record player =
  option :: options
  samples :: "sample list"
  startTime :: real
  decodedSampleRate :: "nat option"
  decodedChannels :: "nat option"
  intervalActive :: bool
  ctxClosed :: bool
  started :: "scheduled list"

datatype outcome = Return player | Throw error player

fun state_of :: "outcome \<Rightarrow> player" where
  "state_of (Return s) = s"
| "state_of (Throw e s) = s"

fun raised :: "outcome \<Rightarrow> error option" where
  "raised (Return s) = None"
| "raised (Throw e s) = Some e"

text \<open>
  \<^verbatim>\<open>initOptions\<close>: the defaults, overridden by the options given (\<open>None\<close>: not given).
\<close>

record options_given =
  given_encoding :: "encoding option"
  given_channels :: "nat option"
  given_sampleRate :: "nat option"
  given_flushingTime :: "nat option"

definition no_options :: options_given where
  "no_options = \<lparr>given_encoding = None, given_channels = None,
                 given_sampleRate = None, given_flushingTime = None\<rparr>"

definition initOptions :: "options_given \<Rightarrow> options" where
  "initOptions g =
     \<lparr>encoding = (case given_encoding g of None \<Rightarrow> Int16 | Some e \<Rightarrow> e),
      channels = (case given_channels g of None \<Rightarrow> 2 | Some c \<Rightarrow> c),
      sampleRate = (case given_sampleRate g of None \<Rightarrow> 48000 | Some r \<Rightarrow> r),
      flushingTime = (case given_flushingTime g of None \<Rightarrow> 20 | Some t \<Rightarrow> t)\<rparr>"

text \<open>
  The constructor: empty backlog, \<^verbatim>\<open>startTime = audioCtx.currentTime\<close>, no decoded format,
  the flush timer registered.
\<close>

definition create :: "options_given \<Rightarrow> real \<Rightarrow> player" where
  "create g now =
     \<lparr>option = initOptions g, samples = [], startTime = now,
      decodedSampleRate = None, decodedChannels = None,
      intervalActive = True, ctxClosed = False, started = []\<rparr>"

subsection \<open>feed\<close>

text \<open>
  Lines 81-85: \<^verbatim>\<open>inter[i * ch + c] = channelData[c][i]\<close> for \<open>i < len\<close>, \<open>c < ch\<close>, on a
  zero-filled array of \<open>len * ch\<close> elements.
\<close>

definition interleave_row :: "sample list list \<Rightarrow> nat \<Rightarrow> sample list \<Rightarrow> sample list" where
  "interleave_row cd i buf =
     fold (\<lambda>c buf. buf[i * length cd + c := read_f32 (cd ! c) i]) [0..<length cd] buf"

definition interleave :: "sample list list \<Rightarrow> nat \<Rightarrow> sample list" where
  "interleave cd len =
     fold (interleave_row cd) [0..<len] (replicate (len * length cd) (F32 0))"

text \<open>The index pairs \<open>(c, i)\<close> at which that loop reads \<^verbatim>\<open>channelData[c][i]\<close>, in order.\<close>

definition interleave_reads :: "sample list list \<Rightarrow> nat \<Rightarrow> (nat \<times> nat) list" where
  "interleave_reads cd len =
     concat (map (\<lambda>i. map (\<lambda>c. (c, i)) [0..<length cd]) [0..<len])"

text \<open>Lines 68-76: the format is latched when \<^verbatim>\<open>_decodedSampleRate == null\<close>.\<close>

definition latch :: "player \<Rightarrow> decoded \<Rightarrow> player" where
  "latch s d =
     (if decodedSampleRate s = None
      then s\<lparr>decodedSampleRate := Some (frameRate d),
             decodedChannels := Some (length (channelData d))\<rparr>
      else s)"

text \<open>
  Lines 68-91, the part of \<^verbatim>\<open>feed\<close> after a successful decode. \<^verbatim>\<open>channelData[0].length\<close>
  raises a TypeError when there is no channel, after the latch.
\<close>

definition feed_decoded :: "player \<Rightarrow> decoded \<Rightarrow> outcome" where
  "feed_decoded s d =
     (let s1 = latch s d in
      case channelData d of
        [] \<Rightarrow> Throw TypeError s1
      | c0 # _ \<Rightarrow>
          (let buf = interleave (channelData d) (length c0)
           in Return (s1\<lparr>samples := samples s1 @ buf\<rparr>)))"

text \<open>
  \<^verbatim>\<open>feed\<close>, from the point where \<^verbatim>\<open>decoderReady\<close> has resolved. An exception of the
  \<^verbatim>\<open>Uint8Array\<close> constructor or of the decoder rejects the promise \<^verbatim>\<open>feed\<close> returned.
\<close>

definition feed :: "decoder \<Rightarrow> player \<Rightarrow> js_value \<Rightarrow> outcome" where
  "feed decodeFrame s data =
     (if \<not> isTypedArray data then Return s
      else case packet_of data of
             Inl e \<Rightarrow> Throw e s
           | Inr packet \<Rightarrow>
               (case decodeFrame packet of
                  Inl e \<Rightarrow> Throw e s
                | Inr d \<Rightarrow> feed_decoded s d))"

subsection \<open>destroy\<close>

text \<open>
  \<^verbatim>\<open>clearInterval\<close>, a fresh empty backlog, \<^verbatim>\<open>audioCtx.close()\<close>. Closing a closed context
  returns a rejected promise, which \<^verbatim>\<open>destroy\<close> drops; nothing is raised.
\<close>

definition destroy :: "player \<Rightarrow> player" where
  "destroy s = s\<lparr>intervalActive := False, samples := [], ctxClosed := True\<rparr>"

subsection \<open>flush\<close>

text \<open>
  The numbers of \<^verbatim>\<open>flush\<close>: a division by a zero frame size gives \<open>Infinity\<close>, or \<open>NaN\<close>
  for \<open>0 / 0\<close>, and \<^verbatim>\<open>Math.floor\<close> keeps both.
\<close>

datatype js_number = Finite nat | Infinity | NaN

definition floor_div :: "nat \<Rightarrow> nat \<Rightarrow> js_number" where
  "floor_div a b =
     (if b \<noteq> 0 then Finite (a div b) else if a = 0 then NaN else Infinity)"

fun times :: "js_number \<Rightarrow> nat \<Rightarrow> js_number" where
  "times (Finite a) b = Finite (a * b)"
| "times Infinity b = (if b = 0 then NaN else Infinity)"
| "times NaN b = NaN"

text \<open>
  The conversion of an argument to \<^verbatim>\<open>unsigned long\<close>: \<open>NaN\<close> and \<open>Infinity\<close> become 0.
\<close>

fun to_unsigned_long :: "js_number \<Rightarrow> nat" where
  "to_unsigned_long (Finite n) = n"
| "to_unsigned_long _ = 0"

text \<open>
  \<^verbatim>\<open>samples.subarray(begin)\<close>: \<open>NaN\<close> is 0, and a begin beyond the end gives the empty view.
\<close>

fun subarray :: "sample list \<Rightarrow> js_number \<Rightarrow> sample list" where
  "subarray xs (Finite n) = drop n xs"
| "subarray xs Infinity = []"
| "subarray xs NaN = xs"

text \<open>
  \<^verbatim>\<open>audioCtx.createBuffer\<close>: a NotSupportedError when an argument is zero, else a buffer of
  zero-filled channels. The sink takes every other format: the limits an implementation
  puts on the sample rate and on the number of channels are not modelled.
\<close>

definition createBuffer :: "nat \<Rightarrow> nat \<Rightarrow> nat \<Rightarrow> error + audio_buffer" where
  "createBuffer n len rate =
     (if n = 0 \<or> len = 0 \<or> rate = 0 then Inl NotSupportedError
      else Inr \<lparr>numberOfChannels = n, buffer_length = len, buffer_rate = rate,
                channel_data = replicate n (replicate len (F32 0))\<rparr>)"

definition duration :: "audio_buffer \<Rightarrow> real" where
  "duration b = real (buffer_length b) / real (buffer_rate b)"

text \<open>Lines 108-111.\<close>

definition effective_rate :: "player \<Rightarrow> nat" where
  "effective_rate s =
     (case decodedSampleRate s of
        Some r \<Rightarrow> if r \<noteq> 0 then r else sampleRate (option s)
      | None \<Rightarrow> sampleRate (option s))"

definition effective_channels :: "player \<Rightarrow> nat" where
  "effective_channels s =
     (case decodedChannels s of
        Some c \<Rightarrow> if c \<noteq> 0 then c else channels (option s)
      | None \<Rightarrow> channels (option s))"

definition frameSamples :: "player \<Rightarrow> nat" where
  "frameSamples s = (effective_rate s * flushingTime (option s)) div 1000"

definition frameSize :: "player \<Rightarrow> nat" where
  "frameSize s = frameSamples s * effective_channels s"

definition fullFrames :: "player \<Rightarrow> js_number" where
  "fullFrames s = floor_div (length (samples s)) (frameSize s)"

text \<open>
  Lines 124-131: channel \<open>c\<close> of the buffer is filled from \<^verbatim>\<open>samples[readIdx]\<close>, with
  \<open>readIdx\<close> starting at \<open>c\<close> and advancing by the number of channels.
\<close>

definition fill_channel ::
  "sample list \<Rightarrow> nat \<Rightarrow> nat \<Rightarrow> nat \<Rightarrow> sample list \<Rightarrow> sample list" where
  "fill_channel smp chans bufferLen c chData =
     fst (fold (\<lambda>i (chData, readIdx). (chData[i := read_f32 smp readIdx], readIdx + chans))
            [0..<bufferLen] (chData, c))"

definition deinterleave ::
  "sample list \<Rightarrow> nat \<Rightarrow> nat \<Rightarrow> sample list list \<Rightarrow> sample list list" where
  "deinterleave smp chans bufferLen cds =
     fold (\<lambda>c cds. cds[c := fill_channel smp chans bufferLen c (cds ! c)]) [0..<chans] cds"

definition flush :: "player \<Rightarrow> real \<Rightarrow> outcome" where
  "flush s now =
     (if fullFrames s = Finite 0 then Return s
      else
        let totalSamples = times (fullFrames s) (frameSize s);
            bufferLen = to_unsigned_long (times (fullFrames s) (frameSamples s))
        in case createBuffer (effective_channels s) bufferLen (effective_rate s) of
             Inl e \<Rightarrow> Throw e s
           | Inr audioBuffer \<Rightarrow>
               (let filled = audioBuffer\<lparr>channel_data :=
                       deinterleave (samples s) (effective_channels s) bufferLen
                         (channel_data audioBuffer)\<rparr>;
                    start = (if startTime s < now then now else startTime s)
                in Return (s\<lparr>started := started s @
                                [\<lparr>src_buffer = filled, src_start = start, src_now = now\<rparr>],
                              startTime := start + duration filled,
                              samples := subarray (samples s) totalSamples\<rparr>)))"

subsection \<open>Runs\<close>

text \<open>
  What happens to a player: a call of \<^verbatim>\<open>feed\<close> (with the decoder's behaviour at that
  call), a tick of the interval timer at a time of the sink's clock, a call of
  \<^verbatim>\<open>destroy\<close>. The timer calls \<^verbatim>\<open>flush\<close> as long as the interval is registered. An
  exception ends the call, not the player. Calls do not overlap: once \<^verbatim>\<open>decoderReady\<close>
  has resolved, the rest of \<^verbatim>\<open>feed\<close> runs without another \<^verbatim>\<open>await\<close>.
\<close>

datatype event = Feed decoder js_value | Tick real | Destroy

fun step :: "player \<Rightarrow> event \<Rightarrow> player" where
  "step s (Feed decodeFrame data) = state_of (feed decodeFrame s data)"
| "step s (Tick now) = (if intervalActive s then state_of (flush s now) else s)"
| "step s Destroy = destroy s"

definition run :: "player \<Rightarrow> event list \<Rightarrow> player" where
  "run s evs = foldl step s evs"

subsection \<open>Feeding several blocks\<close>

text \<open>Successive calls of \<^verbatim>\<open>feed\<close> whose packets decode to the blocks \<open>ds\<close>, in order.\<close>

definition feed_all :: "player \<Rightarrow> decoded list \<Rightarrow> player" where
  "feed_all s ds = foldl (\<lambda>s d. state_of (feed_decoded s d)) s ds"

text \<open>
  The blocks \<open>bs\<close>, of \<open>ch\<close> channels each, joined into one block: channel \<open>c\<close> of the
  result is the concatenation of the channels \<open>c\<close> of the blocks.
\<close>

definition concat_blocks :: "nat \<Rightarrow> sample list list list \<Rightarrow> sample list list" where
  "concat_blocks ch bs = map (\<lambda>c. concat (map (\<lambda>b. b ! c) bs)) [0..<ch]"

subsection \<open>The first decoded block of a run\<close>

text \<open>
  The block a call of \<^verbatim>\<open>feed\<close> gets from the decoder: the input passes \<open>isTypedArray\<close>,
  the packet view is built and \<^verbatim>\<open>decodeFrame\<close> returns. \<open>first_decoded\<close> is the block of
  the first such call among the events.
\<close>

fun decoded_by :: "event \<Rightarrow> decoded option" where
  "decoded_by (Feed decodeFrame data) =
     (if isTypedArray data
      then case packet_of data of
             Inl e \<Rightarrow> None
           | Inr packet \<Rightarrow> (case decodeFrame packet of Inl e \<Rightarrow> None | Inr d \<Rightarrow> Some d)
      else None)"
| "decoded_by (Tick now) = None"
| "decoded_by Destroy = None"

fun first_decoded :: "event list \<Rightarrow> decoded option" where
  "first_decoded [] = None"
| "first_decoded (ev # evs) =
     (case decoded_by ev of Some d \<Rightarrow> Some d | None \<Rightarrow> first_decoded evs)"

text \<open>The end of a scheduled buffer: its start time plus its duration.\<close>

definition src_end :: "scheduled \<Rightarrow> real" where
  "src_end e = src_start e + duration (src_buffer e)"

section \<open>Lemmas\<close>

subsection \<open>The interleaving loop in closed form\<close>

lemma length_fold_update:
  "length (fold (\<lambda>c buf. buf[g c := f c]) cs buf) = length buf"
  by (induction cs arbitrary: buf) simp_all

lemma length_interleave_row: "length (interleave_row cd i buf) = length buf"
  by (simp add: interleave_row_def length_fold_update)

lemma row_prefix_nth:
  "j < length buf \<Longrightarrow>
   fold (\<lambda>c buf. buf[b + c := f c]) [0..<k] buf ! j =
     (if b \<le> j \<and> j < b + k then f (j - b) else buf ! j)"
proof (induction k)
  case 0
  then show ?case by auto
next
  case (Suc k)
  let ?r = "fold (\<lambda>c buf. buf[b + c := f c]) [0..<k] buf"
  have len: "length ?r = length buf"
    by (rule length_fold_update[of "\<lambda>c. b + c"])
  have "fold (\<lambda>c buf. buf[b + c := f c]) [0..<Suc k] buf ! j = (?r[b + k := f k]) ! j"
    by simp
  also have "\<dots> = (if j = b + k then f k else ?r ! j)"
    using Suc.prems len by (simp add: nth_list_update)
  also have "\<dots> = (if b \<le> j \<and> j < b + Suc k then f (j - b) else buf ! j)"
    using Suc by auto
  finally show ?case .
qed

lemma interleave_row_nth:
  "j < length buf \<Longrightarrow>
   interleave_row cd i buf ! j =
     (if i * length cd \<le> j \<and> j < i * length cd + length cd
      then read_f32 (cd ! (j - i * length cd)) i else buf ! j)"
  unfolding interleave_row_def
  using row_prefix_nth[of j buf "i * length cd" "\<lambda>c. read_f32 (cd ! c) i" "length cd"]
  by simp

lemma length_fold_rows: "length (fold (interleave_row cd) is buf) = length buf"
  by (induction "is" arbitrary: buf) (simp_all add: length_interleave_row)

lemma div_mod_in_row:
  fixes j m n :: nat
  assumes "m * n \<le> j" "j < m * n + n"
  shows "j div n = m" "j mod n = j - m * n"
proof -
  from assms have n: "0 < n" by (cases n) auto
  from assms show d: "j div n = m"
    by (intro div_nat_eqI) (simp_all add: mult.commute)
  have "j = (j div n) * n + j mod n" by simp
  with d show "j mod n = j - m * n" by simp
qed

lemma fold_rows_nth:
  "j < length buf \<Longrightarrow>
   fold (interleave_row cd) [0..<m] buf ! j =
     (if j < m * length cd then read_f32 (cd ! (j mod length cd)) (j div length cd) else buf ! j)"
proof (induction m)
  case 0
  then show ?case by simp
next
  case (Suc m)
  let ?ch = "length cd"
  have lenf: "j < length (fold (interleave_row cd) [0..<m] buf)"
    using Suc.prems by (simp add: length_fold_rows)
  show ?case
  proof (cases "m * ?ch \<le> j \<and> j < m * ?ch + ?ch")
    case True
    then have "j div ?ch = m" "j mod ?ch = j - m * ?ch"
      using div_mod_in_row[of m ?ch j] by simp_all
    with True lenf show ?thesis by (simp add: interleave_row_nth)
  next
    case False
    with lenf Suc show ?thesis by (auto simp: interleave_row_nth)
  qed
qed

lemma length_interleave: "length (interleave cd len) = len * length cd"
  by (simp add: interleave_def length_fold_rows)

lemma interleave_nth:
  "j < len * length cd \<Longrightarrow>
   interleave cd len ! j = read_f32 (cd ! (j mod length cd)) (j div length cd)"
  by (simp add: interleave_def fold_rows_nth)

lemma interleave_index:
  assumes "c < length cd" "i < len"
  shows "i * length cd + c < len * length cd"
    and "interleave cd len ! (i * length cd + c) = read_f32 (cd ! c) i"
proof -
  have "i * length cd + c < i * length cd + length cd" using assms by simp
  also have "\<dots> = Suc i * length cd" by simp
  also have "\<dots> \<le> len * length cd" using assms by (intro mult_le_mono1) simp
  finally show b: "i * length cd + c < len * length cd" .
  have "(i * length cd + c) div length cd = i" "(i * length cd + c) mod length cd = c"
    using assms div_mod_in_row[of i "length cd" "i * length cd + c"] by simp_all
  then show "interleave cd len ! (i * length cd + c) = read_f32 (cd ! c) i"
    using b by (simp add: interleave_nth)
qed

subsection \<open>feed after a decode\<close>

lemma feed_decoded_Cons:
  "channelData d = c0 # rest \<Longrightarrow>
   feed_decoded s d =
     Return ((latch s d)\<lparr>samples := samples s @ interleave (channelData d) (length c0)\<rparr>)"
  by (simp add: feed_decoded_def latch_def)

lemma feed_decoded_Nil:
  "channelData d = [] \<Longrightarrow> feed_decoded s d = Throw TypeError (latch s d)"
  by (simp add: feed_decoded_def)

lemma samples_latch [simp]: "samples (latch s d) = samples s"
  by (simp add: latch_def)

lemma set_interleave_reads:
  "set (interleave_reads cd len) = {(c, i). c < length cd \<and> i < len}"
  by (force simp: interleave_reads_def)

subsection \<open>The de-interleaving loop in closed form\<close>

lemma fill_fold:
  "k \<le> length chData \<Longrightarrow>
   fold (\<lambda>i (chData, readIdx). (chData[i := read_f32 smp readIdx], readIdx + chans))
        [0..<k] (chData, c)
   = (map (\<lambda>i. read_f32 smp (c + i * chans)) [0..<k] @ drop k chData, c + k * chans)"
proof (induction k)
  case 0
  then show ?case by simp
next
  case (Suc k)
  let ?pre = "map (\<lambda>i. read_f32 smp (c + i * chans)) [0..<k]"
  from Suc.prems have k: "k < length chData" by simp
  then have d: "drop k chData = chData ! k # drop (Suc k) chData"
    by (simp add: Cons_nth_drop_Suc)
  have "(?pre @ drop k chData)[k := read_f32 smp (c + k * chans)]
          = ?pre @ (drop k chData)[0 := read_f32 smp (c + k * chans)]"
    by (simp add: list_update_append)
  also have "\<dots> = ?pre @ read_f32 smp (c + k * chans) # drop (Suc k) chData"
    by (simp add: d)
  finally show ?case using Suc k by (simp add: add.commute add.left_commute)
qed

lemma fill_channel_eq:
  "length chData = bufferLen \<Longrightarrow>
   fill_channel smp chans bufferLen c chData
     = map (\<lambda>i. read_f32 smp (c + i * chans)) [0..<bufferLen]"
  by (simp add: fill_channel_def fill_fold)

lemma deinterleave_fold:
  "k \<le> length cds \<Longrightarrow> \<forall>x\<in>set cds. length x = bufferLen \<Longrightarrow>
   fold (\<lambda>c cds. cds[c := fill_channel smp chans bufferLen c (cds ! c)]) [0..<k] cds
   = map (\<lambda>c. map (\<lambda>i. read_f32 smp (c + i * chans)) [0..<bufferLen]) [0..<k] @ drop k cds"
proof (induction k)
  case 0
  then show ?case by simp
next
  case (Suc k)
  let ?row = "\<lambda>c. map (\<lambda>i. read_f32 smp (c + i * chans)) [0..<bufferLen]"
  let ?pre = "map ?row [0..<k]"
  from Suc.prems have k: "k < length cds" by simp
  then have d: "drop k cds = cds ! k # drop (Suc k) cds"
    by (simp add: Cons_nth_drop_Suc)
  have lk: "length (cds ! k) = bufferLen" using Suc.prems(2) k by simp
  have nth: "(?pre @ drop k cds) ! k = cds ! k" using k by (simp add: nth_append)
  have "(?pre @ drop k cds)[k := fill_channel smp chans bufferLen k ((?pre @ drop k cds) ! k)]
          = ?pre @ (drop k cds)[0 := ?row k]"
    using lk by (simp add: nth list_update_append fill_channel_eq)
  also have "\<dots> = ?pre @ ?row k # drop (Suc k) cds" by (simp add: d)
  finally show ?case using Suc k by simp
qed

lemma deinterleave_eq:
  "length cds = chans \<Longrightarrow> \<forall>x\<in>set cds. length x = bufferLen \<Longrightarrow>
   deinterleave smp chans bufferLen cds
     = map (\<lambda>c. map (\<lambda>i. read_f32 smp (c + i * chans)) [0..<bufferLen]) [0..<chans]"
  by (simp add: deinterleave_def deinterleave_fold)

subsection \<open>The three cases of flush\<close>

lemma fullFrames_pos:
  "0 < frameSize s \<Longrightarrow> fullFrames s = Finite (length (samples s) div frameSize s)"
  by (simp add: fullFrames_def floor_div_def)

lemma fullFrames_zero:
  "frameSize s = 0 \<Longrightarrow> fullFrames s = NaN \<or> fullFrames s = Infinity"
  by (simp add: fullFrames_def floor_div_def)

lemma fullFrames_Finite_0_iff:
  "fullFrames s = Finite 0 \<longleftrightarrow> 0 < frameSize s \<and> length (samples s) < frameSize s"
  by (auto simp: fullFrames_def floor_div_def div_eq_0_iff)

lemma flush_noop: "fullFrames s = Finite 0 \<Longrightarrow> flush s now = Return s"
  by (simp add: flush_def)

lemma flush_zero_frame: "frameSize s = 0 \<Longrightarrow> flush s now = Throw NotSupportedError s"
proof -
  assume z: "frameSize s = 0"
  then have "to_unsigned_long (times (fullFrames s) (frameSamples s)) = 0"
    using fullFrames_zero[OF z] by auto
  moreover have "fullFrames s \<noteq> Finite 0" using fullFrames_zero[OF z] by auto
  ultimately show ?thesis by (simp add: flush_def createBuffer_def)
qed

lemma frameSize_pos:
  "0 < frameSize s \<Longrightarrow> 0 < frameSamples s \<and> 0 < effective_channels s \<and> 0 < effective_rate s"
  by (auto simp: frameSize_def frameSamples_def intro!: Nat.gr0I)

lemma flush_emit:
  assumes pos: "0 < frameSize s" and full: "frameSize s \<le> length (samples s)"
  shows "flush s now =
    Return (s\<lparr>started := started s @
       [\<lparr>src_buffer =
           \<lparr>numberOfChannels = effective_channels s,
            buffer_length = frameSamples s * (length (samples s) div frameSize s),
            buffer_rate = effective_rate s,
            channel_data =
              map (\<lambda>c. map (\<lambda>i. read_f32 (samples s) (c + i * effective_channels s))
                          [0..<frameSamples s * (length (samples s) div frameSize s)])
                  [0..<effective_channels s]\<rparr>,
         src_start = max (startTime s) now, src_now = now\<rparr>],
      startTime := max (startTime s) now
         + real (frameSamples s * (length (samples s) div frameSize s)) / real (effective_rate s),
      samples := drop (length (samples s) div frameSize s * frameSize s) (samples s)\<rparr>)"
proof -
  let ?m = "length (samples s) div frameSize s"
  have m: "0 < ?m" using pos full by (simp add: div_greater_zero_iff)
  have ff: "fullFrames s = Finite ?m" by (rule fullFrames_pos[OF pos])
  note p = frameSize_pos[OF pos]
  have len: "to_unsigned_long (times (fullFrames s) (frameSamples s)) = frameSamples s * ?m"
    by (simp add: ff mult.commute)
  have cb: "createBuffer (effective_channels s) (frameSamples s * ?m) (effective_rate s)
     = Inr \<lparr>numberOfChannels = effective_channels s, buffer_length = frameSamples s * ?m,
            buffer_rate = effective_rate s,
            channel_data = replicate (effective_channels s) (replicate (frameSamples s * ?m) (F32 0))\<rparr>"
    using p m by (simp add: createBuffer_def)
  have de: "deinterleave (samples s) (effective_channels s) (frameSamples s * ?m)
              (replicate (effective_channels s) (replicate (frameSamples s * ?m) (F32 0)))
            = map (\<lambda>c. map (\<lambda>i. read_f32 (samples s) (c + i * effective_channels s))
                          [0..<frameSamples s * ?m]) [0..<effective_channels s]"
    by (rule deinterleave_eq) simp_all
  have nz: "fullFrames s \<noteq> Finite 0" using ff m by simp
  have tot: "times (fullFrames s) (frameSize s) = Finite (?m * frameSize s)"
    by (simp add: ff)
  show ?thesis
    unfolding flush_def
    by (simp add: nz len tot cb de duration_def max_def not_less Let_def)
qed

subsection \<open>The two loops are inverse to each other\<close>

lemma deinterleave_interleave:
  assumes rect: "\<forall>x\<in>set cd. length x = n"
  shows "deinterleave (interleave cd n) (length cd) n (replicate (length cd) (replicate n (F32 0))) = cd"
proof -
  let ?ch = "length cd"
  have "deinterleave (interleave cd n) ?ch n (replicate ?ch (replicate n (F32 0)))
        = map (\<lambda>c. map (\<lambda>i. read_f32 (interleave cd n) (c + i * ?ch)) [0..<n]) [0..<?ch]"
    by (rule deinterleave_eq) simp_all
  also have "\<dots> = map (\<lambda>c. cd ! c) [0..<?ch]"
  proof (rule map_cong[OF refl])
    fix c assume "c \<in> set [0..<?ch]"
    then have c: "c < ?ch" by simp
    then have lc: "length (cd ! c) = n" using rect by simp
    have "map (\<lambda>i. read_f32 (interleave cd n) (c + i * ?ch)) [0..<n] = map (\<lambda>i. cd ! c ! i) [0..<n]"
    proof (rule map_cong[OF refl])
      fix i assume "i \<in> set [0..<n]"
      then have i: "i < n" by simp
      from interleave_index[OF c i] i lc
      show "read_f32 (interleave cd n) (c + i * ?ch) = cd ! c ! i"
        by (simp add: read_f32_def length_interleave add.commute)
    qed
    also have "\<dots> = cd ! c" using lc by (metis map_nth)
    finally show "map (\<lambda>i. read_f32 (interleave cd n) (c + i * ?ch)) [0..<n] = cd ! c" .
  qed
  also have "\<dots> = cd" by (rule map_nth)
  finally show ?thesis .
qed

lemma interleave_deinterleave:
  assumes ch: "0 < ch" and len: "length xs = n * ch"
  shows "interleave (deinterleave xs ch n (replicate ch (replicate n (F32 0)))) n = xs"
proof -
  let ?D = "map (\<lambda>c. map (\<lambda>i. read_f32 xs (c + i * ch)) [0..<n]) [0..<ch]"
  have D: "deinterleave xs ch n (replicate ch (replicate n (F32 0))) = ?D"
    by (rule deinterleave_eq) simp_all
  have lD: "length ?D = ch" by simp
  show ?thesis unfolding D
  proof (rule nth_equalityI)
    show "length (interleave ?D n) = length xs" by (simp add: length_interleave len)
  next
    fix j assume "j < length (interleave ?D n)"
    then have j: "j < n * ch" by (simp add: length_interleave)
    then have d: "j div ch < n" by (simp add: less_mult_imp_div_less)
    have m: "j mod ch < ch" using ch by simp
    have "interleave ?D n ! j = read_f32 (?D ! (j mod ch)) (j div ch)"
      using interleave_nth[of j n ?D] j by (simp only: lD)
    also have "\<dots> = read_f32 xs (j mod ch + j div ch * ch)"
      using d m by (simp add: read_f32_def)
    also have "\<dots> = xs ! j" using j len by (simp add: read_f32_def)
    finally show "interleave ?D n ! j = xs ! j" .
  qed
qed

subsection \<open>Blocks fed one after the other\<close>

lemma interleave_append_blocks:
  assumes ch: "0 < ch" and lA: "length A = ch" and lB: "length B = ch"
    and rA: "\<forall>x\<in>set A. length x = nA" and rB: "\<forall>x\<in>set B. length x = nB"
  shows "interleave (map (\<lambda>c. A ! c @ B ! c) [0..<ch]) (nA + nB)
           = interleave A nA @ interleave B nB"
proof (rule nth_equalityI)
  show "length (interleave (map (\<lambda>c. A ! c @ B ! c) [0..<ch]) (nA + nB))
          = length (interleave A nA @ interleave B nB)"
    by (simp add: length_interleave lA lB add_mult_distrib)
next
  let ?AB = "map (\<lambda>c. A ! c @ B ! c) [0..<ch]"
  fix j assume "j < length (interleave ?AB (nA + nB))"
  then have j: "j < (nA + nB) * ch" by (simp add: length_interleave)
  let ?c = "j mod ch" and ?i = "j div ch"
  have c: "?c < ch" using ch by simp
  have i: "?i < nA + nB" using j by (simp add: less_mult_imp_div_less)
  have lAc: "length (A ! ?c) = nA" using rA c lA by simp
  have lBc: "length (B ! ?c) = nB" using rB c lB by simp
  have "interleave ?AB (nA + nB) ! j = read_f32 (?AB ! ?c) ?i"
    using interleave_nth[of j "nA + nB" ?AB] j by simp
  also have "\<dots> = (A ! ?c @ B ! ?c) ! ?i"
    using c i lAc lBc by (simp add: read_f32_def)
  finally have lhs: "interleave ?AB (nA + nB) ! j = (A ! ?c @ B ! ?c) ! ?i" .
  show "interleave ?AB (nA + nB) ! j = (interleave A nA @ interleave B nB) ! j"
  proof (cases "j < nA * ch")
    case True
    then have iA: "?i < nA" by (simp add: less_mult_imp_div_less)
    have "(interleave A nA @ interleave B nB) ! j = interleave A nA ! j"
      using True by (simp add: nth_append length_interleave lA)
    also have "\<dots> = read_f32 (A ! ?c) ?i"
      using interleave_nth[of j nA A] True by (simp add: lA)
    also have "\<dots> = A ! ?c ! ?i" using iA lAc by (simp add: read_f32_def)
    finally show ?thesis using lhs iA lAc by (simp add: nth_append)
  next
    case False
    then have ge: "nA * ch \<le> j" by simp
    then have iA: "nA \<le> ?i" using ch
      by (metis div_le_mono div_mult_self_is_m)
    have jB: "j - nA * ch < nB * ch" using j ge by (simp add: add_mult_distrib)
    define k where "k = j - nA * ch"
    have jk: "j = k + nA * ch" using ge by (simp add: k_def)
    have dm: "(j - nA * ch) mod ch = ?c" "(j - nA * ch) div ch = ?i - nA"
      unfolding k_def[symmetric] using ch by (simp_all add: jk)
    have "(interleave A nA @ interleave B nB) ! j = interleave B nB ! (j - nA * ch)"
      using False by (simp add: nth_append length_interleave lA)
    also have "\<dots> = read_f32 (B ! ?c) (?i - nA)"
      using interleave_nth[of "j - nA * ch" nB B] jB by (simp add: lB dm)
    also have "\<dots> = B ! ?c ! (?i - nA)"
    proof -
      have "?i - nA < length (B ! ?c)" using i iA lBc by linarith
      then show ?thesis by (simp only: read_f32_def if_True)
    qed
    finally show ?thesis using lhs iA lAc by (simp add: nth_append)
  qed
qed

lemma feed_decoded_samples:
  "channelData d \<noteq> [] \<Longrightarrow>
   samples (state_of (feed_decoded s d))
     = samples s @ interleave (channelData d) (length (channelData d ! 0))"
  by (cases "channelData d") (simp_all add: feed_decoded_Cons)

lemma feed_all_samples:
  "\<forall>d\<in>set ds. channelData d \<noteq> [] \<Longrightarrow>
   samples (feed_all s ds)
     = samples s @ concat (map (\<lambda>d. interleave (channelData d) (length (channelData d ! 0))) ds)"
proof (induction ds arbitrary: s)
  case Nil
  then show ?case by (simp add: feed_all_def)
next
  case (Cons d ds)
  have "feed_all s (d # ds) = feed_all (state_of (feed_decoded s d)) ds"
    by (simp add: feed_all_def)
  with Cons show ?case by (simp add: feed_decoded_samples)
qed

lemma interleave_no_samples: "interleave cd 0 = []"
  by (simp add: interleave_def)

lemma concat_blocks_nth:
  "c < ch \<Longrightarrow> concat_blocks ch bs ! c = concat (map (\<lambda>b. b ! c) bs)"
  by (simp add: concat_blocks_def)

lemma length_concat_blocks [simp]: "length (concat_blocks ch bs) = ch"
  by (simp add: concat_blocks_def)

lemma concat_blocks_rect:
  assumes "\<forall>b\<in>set bs. length b = ch \<and> (\<forall>x\<in>set b. length x = length (b ! 0))"
  shows "\<forall>x\<in>set (concat_blocks ch bs). length x = sum_list (map (\<lambda>b. length (b ! 0)) bs)"
proof -
  have "length (concat (map (\<lambda>b. b ! c) bs)) = sum_list (map (\<lambda>b. length (b ! 0)) bs)"
    if c: "c < ch" for c
  proof -
    have "map (\<lambda>b. length (b ! c)) bs = map (\<lambda>b. length (b ! 0)) bs"
    proof (rule map_cong[OF refl])
      fix b assume b: "b \<in> set bs"
      with assms c have "b ! c \<in> set b" by (intro nth_mem) simp
      with assms b show "length (b ! c) = length (b ! 0)" by blast
    qed
    then have "sum_list (map (\<lambda>b. length (b ! c)) bs) = sum_list (map (\<lambda>b. length (b ! 0)) bs)"
      by (rule arg_cong)
    moreover have "length (concat (map (\<lambda>b. b ! c) bs)) = sum_list (map (\<lambda>b. length (b ! c)) bs)"
      by (simp add: length_concat comp_def)
    ultimately show ?thesis by simp
  qed
  then show ?thesis by (simp add: concat_blocks_def)
qed

lemma interleave_concat_blocks:
  assumes ch: "0 < ch"
    and wf: "\<forall>b\<in>set bs. length b = ch \<and> (\<forall>x\<in>set b. length x = length (b ! 0))"
  shows "interleave (concat_blocks ch bs) (sum_list (map (\<lambda>b. length (b ! 0)) bs))
           = concat (map (\<lambda>b. interleave b (length (b ! 0))) bs)"
  using wf
proof (induction bs)
  case Nil
  then show ?case by (simp add: interleave_no_samples)
next
  case (Cons b bs)
  let ?N = "sum_list (map (\<lambda>b. length (b ! 0)) bs)"
  have split: "concat_blocks ch (b # bs) = map (\<lambda>c. b ! c @ concat_blocks ch bs ! c) [0..<ch]"
    by (simp add: concat_blocks_def)
  have rB: "\<forall>x\<in>set (concat_blocks ch bs). length x = ?N"
    using Cons.prems by (intro concat_blocks_rect) simp
  have "interleave (concat_blocks ch (b # bs)) (length (b ! 0) + ?N)
          = interleave b (length (b ! 0)) @ interleave (concat_blocks ch bs) ?N"
    unfolding split
    using Cons.prems rB by (intro interleave_append_blocks[OF ch]) simp_all
  with Cons show ?case by simp
qed

subsection \<open>A block fed and flushed\<close>

lemma feed_then_flush:
  assumes fresh: "decodedSampleRate s = None" and empty: "samples s = []"
    and ne: "channelData d \<noteq> []" and rect: "\<forall>x\<in>set (channelData d). length x = n"
    and n: "0 < n" "n = frameSamples (state_of (feed_decoded s d)) * k"
  shows "channel_data (src_buffer (last (started (state_of
            (flush (state_of (feed_decoded s d)) now))))) = channelData d"
    and "samples (state_of (flush (state_of (feed_decoded s d)) now)) = []"
proof -
  let ?cd = "channelData d" and ?s' = "state_of (feed_decoded s d)"
  let ?ch = "length ?cd"
  obtain c0 rest where cd: "?cd = c0 # rest" using ne by (cases ?cd) auto
  with rect have l0: "length c0 = n" by simp
  have s': "?s' = (latch s d)\<lparr>samples := interleave ?cd n\<rparr>"
    using feed_decoded_Cons[OF cd, of s] by (simp add: l0 empty)
  have ch: "0 < ?ch" using ne by simp
  have ec: "effective_channels ?s' = ?ch"
    using ch by (simp add: s' latch_def fresh effective_channels_def)
  have smp: "samples ?s' = interleave ?cd n" by (simp add: s')
  have len: "length (samples ?s') = n * ?ch" by (simp add: smp length_interleave)
  let ?fs = "frameSamples ?s'"
  have fs: "0 < ?fs" "0 < k" using n by (auto intro: Nat.gr0I)
  have fz: "frameSize ?s' = ?fs * ?ch" by (simp add: frameSize_def ec)
  have pos: "0 < frameSize ?s'" using fs ch by (simp add: fz)
  have lk: "length (samples ?s') = k * frameSize ?s'"
    by (simp add: len fz n(2) mult_ac)
  have k: "length (samples ?s') div frameSize ?s' = k" using pos by (simp add: lk)
  have full: "frameSize ?s' \<le> length (samples ?s')" using fs by (simp add: lk)
  note e = flush_emit[OF pos full, of now, unfolded k]
  have "channel_data (src_buffer (last (started (state_of (flush ?s' now)))))
      = map (\<lambda>c. map (\<lambda>i. read_f32 (interleave ?cd n) (c + i * ?ch)) [0..<n]) [0..<?ch]"
    by (simp add: e ec smp n(2)[symmetric])
  also have "\<dots> = deinterleave (interleave ?cd n) ?ch n (replicate ?ch (replicate n (F32 0)))"
    by (rule deinterleave_eq[symmetric]) simp_all
  also have "\<dots> = ?cd" by (rule deinterleave_interleave[OF rect])
  finally show "channel_data (src_buffer (last (started (state_of (flush ?s' now))))) = ?cd" .
  show "samples (state_of (flush ?s' now)) = []"
    by (simp add: e lk)
qed

subsection \<open>What a step changes\<close>

lemma latch_fields [simp]:
  "startTime (latch s d) = startTime s" "started (latch s d) = started s"
  "option (latch s d) = option s" "intervalActive (latch s d) = intervalActive s"
  "ctxClosed (latch s d) = ctxClosed s"
  by (simp_all add: latch_def)

lemma feed_decoded_fields [simp]:
  "startTime (state_of (feed_decoded s d)) = startTime s"
  "started (state_of (feed_decoded s d)) = started s"
  "option (state_of (feed_decoded s d)) = option s"
  by (cases "channelData d"; simp add: feed_decoded_def)+

lemma feed_fields [simp]:
  "startTime (state_of (feed decodeFrame s data)) = startTime s"
  "started (state_of (feed decodeFrame s data)) = started s"
  "option (state_of (feed decodeFrame s data)) = option s"
  by (simp_all add: feed_def split: sum.splits)

lemma destroy_fields [simp]:
  "startTime (destroy s) = startTime s" "started (destroy s) = started s"
  "option (destroy s) = option s"
  "decodedSampleRate (destroy s) = decodedSampleRate s"
  "decodedChannels (destroy s) = decodedChannels s"
  by (simp_all add: destroy_def)

lemma flush_effect:
  "state_of (flush s now) = s
   \<or> (\<exists>b rest. 0 < duration b \<and> buffer_rate b = effective_rate s
        \<and> numberOfChannels b = effective_channels s
        \<and> length (channel_data b) = effective_channels s
        \<and> state_of (flush s now) =
            s\<lparr>started := started s @
                 [\<lparr>src_buffer = b, src_start = max (startTime s) now, src_now = now\<rparr>],
              startTime := max (startTime s) now + duration b,
              samples := rest\<rparr>)"
proof (cases "frameSize s = 0")
  case True
  then show ?thesis by (simp add: flush_zero_frame)
next
  case False
  then have pos: "0 < frameSize s" by simp
  show ?thesis
  proof (cases "length (samples s) < frameSize s")
    case True
    with pos have "fullFrames s = Finite 0" by (simp add: fullFrames_Finite_0_iff)
    then show ?thesis by (simp add: flush_noop)
  next
    case False
    then have full: "frameSize s \<le> length (samples s)" by simp
    let ?m = "length (samples s) div frameSize s"
    let ?b = "\<lparr>numberOfChannels = effective_channels s,
            buffer_length = frameSamples s * ?m,
            buffer_rate = effective_rate s,
            channel_data =
              map (\<lambda>c. map (\<lambda>i. read_f32 (samples s) (c + i * effective_channels s))
                          [0..<frameSamples s * ?m])
                  [0..<effective_channels s]\<rparr>"
    have m: "0 < ?m" using pos full by (simp add: div_greater_zero_iff)
    have d: "0 < duration ?b"
      using frameSize_pos[OF pos] m by (simp add: duration_def)
    have "state_of (flush s now) =
            s\<lparr>started := started s @
                 [\<lparr>src_buffer = ?b, src_start = max (startTime s) now, src_now = now\<rparr>],
              startTime := max (startTime s) now + duration ?b,
              samples := drop (?m * frameSize s) (samples s)\<rparr>"
      by (simp add: flush_emit[OF pos full] duration_def)
    with d show ?thesis by (intro disjI2 exI[of _ ?b] exI[of _ "drop (?m * frameSize s) (samples s)"]) simp
  qed
qed

lemma flush_fields [simp]:
  "option (state_of (flush s now)) = option s"
  "decodedSampleRate (state_of (flush s now)) = decodedSampleRate s"
  "decodedChannels (state_of (flush s now)) = decodedChannels s"
  using flush_effect[of s now] by auto

lemma step_option [simp]: "option (step s ev) = option s"
  by (cases ev) simp_all

lemma run_option [simp]: "option (run s evs) = option s"
  unfolding run_def by (induction evs arbitrary: s) simp_all

lemma run_Nil [simp]: "run s [] = s"
  by (simp add: run_def)

lemma run_Cons [simp]: "run s (ev # evs) = run (step s ev) evs"
  by (simp add: run_def)

lemma run_snoc [simp]: "run s (evs @ [ev]) = step (run s evs) ev"
  by (simp add: run_def)

text \<open>A step leaves the schedule and the clock alone, or schedules one buffer.\<close>

lemma step_schedule:
  "(started (step s ev) = started s \<and> startTime (step s ev) = startTime s)
   \<or> (\<exists>e. started (step s ev) = started s @ [e]
          \<and> src_start e = max (startTime s) (src_now e)
          \<and> startTime (step s ev) = src_end e
          \<and> 0 < duration (src_buffer e)
          \<and> buffer_rate (src_buffer e) = effective_rate s
          \<and> numberOfChannels (src_buffer e) = effective_channels s)"
proof (cases ev)
  case (Feed decodeFrame data)
  then show ?thesis by simp
next
  case (Tick now)
  show ?thesis
  proof (cases "intervalActive s")
    case True
    with Tick flush_effect[of s now] show ?thesis
      by (auto simp: src_end_def)
  next
    case False
    with Tick show ?thesis by simp
  qed
next
  case Destroy
  then show ?thesis by simp
qed

lemma step_startTime_mono: "startTime s \<le> startTime (step s ev)"
  using step_schedule[of s ev] by (auto simp: src_end_def)

lemma run_startTime_mono: "startTime s \<le> startTime (run s evs)"
proof (induction evs arbitrary: s)
  case Nil
  then show ?case by simp
next
  case (Cons ev evs)
  have "startTime s \<le> startTime (step s ev)" by (rule step_startTime_mono)
  also have "\<dots> \<le> startTime (run (step s ev) evs)" by (rule Cons.IH)
  finally show ?case by simp
qed

lemma run_started_new:
  "\<exists>new. started (run s evs) = started s @ new \<and> (\<forall>e\<in>set new. src_now e \<le> src_start e)"
proof (induction evs arbitrary: s)
  case Nil
  then show ?case by simp
next
  case (Cons ev evs)
  from Cons.IH[of "step s ev"] obtain new where
    new: "started (run (step s ev) evs) = started (step s ev) @ new"
      "\<forall>e\<in>set new. src_now e \<le> src_start e" by blast
  from step_schedule[of s ev] show ?case
  proof
    assume "started (step s ev) = started s \<and> startTime (step s ev) = startTime s"
    with new show ?thesis by auto
  next
    assume "\<exists>e. started (step s ev) = started s @ [e]
          \<and> src_start e = max (startTime s) (src_now e)
          \<and> startTime (step s ev) = src_end e
          \<and> 0 < duration (src_buffer e)
          \<and> buffer_rate (src_buffer e) = effective_rate s
          \<and> numberOfChannels (src_buffer e) = effective_channels s"
    then obtain e where e: "started (step s ev) = started s @ [e]"
      "src_start e = max (startTime s) (src_now e)" by blast
    then have "src_now e \<le> src_start e" by simp
    with new e show ?thesis by (intro exI[of _ "e # new"]) simp
  qed
qed

text \<open>The schedule of a run that starts with no buffer scheduled.\<close>

lemma run_schedule_contiguous:
  assumes "started s = []"
  shows "(started (run s evs) \<noteq> [] \<longrightarrow> startTime (run s evs) = src_end (last (started (run s evs))))
    \<and> (\<forall>i. Suc i < length (started (run s evs)) \<longrightarrow>
          src_start (started (run s evs) ! Suc i)
            = max (src_end (started (run s evs) ! i)) (src_now (started (run s evs) ! Suc i)))"
proof (induction evs rule: rev_induct)
  case Nil
  then show ?case using assms by simp
next
  case (snoc ev evs)
  let ?t = "run s evs"
  from step_schedule[of ?t ev] show ?case
  proof
    assume "started (step ?t ev) = started ?t \<and> startTime (step ?t ev) = startTime ?t"
    with snoc show ?thesis by simp
  next
    assume "\<exists>e. started (step ?t ev) = started ?t @ [e]
          \<and> src_start e = max (startTime ?t) (src_now e)
          \<and> startTime (step ?t ev) = src_end e
          \<and> 0 < duration (src_buffer e)
          \<and> buffer_rate (src_buffer e) = effective_rate ?t
          \<and> numberOfChannels (src_buffer e) = effective_channels ?t"
    then obtain e where e: "started (step ?t ev) = started ?t @ [e]"
      "src_start e = max (startTime ?t) (src_now e)"
      "startTime (step ?t ev) = src_end e" by blast
    have last: "startTime (step ?t ev) = src_end (last (started (step ?t ev)))"
      by (simp add: e)
    have adj: "src_start ((started ?t @ [e]) ! Suc i)
            = max (src_end ((started ?t @ [e]) ! i)) (src_now ((started ?t @ [e]) ! Suc i))"
      if i: "Suc i < length (started ?t @ [e])" for i
    proof (cases "Suc i < length (started ?t)")
      case True
      with snoc.IH show ?thesis by (simp add: nth_append)
    next
      case False
      with i have si: "Suc i = length (started ?t)" by simp
      then have ne: "started ?t \<noteq> []" by auto
      have "i = length (started ?t) - 1" "i < length (started ?t)" using si by simp_all
      then have "(started ?t @ [e]) ! i = last (started ?t)"
        using ne by (simp add: nth_append last_conv_nth)
      moreover have "(started ?t @ [e]) ! Suc i = e" using si by simp
      moreover have "startTime ?t = src_end (last (started ?t))" using snoc.IH ne by simp
      ultimately show ?thesis using e(2) by simp
    qed
    show ?thesis using last adj by (simp add: e(1))
  qed
qed

subsection \<open>The decoded format along a run\<close>

lemma step_latched:
  assumes "decodedSampleRate s = Some r"
  shows "decodedSampleRate (step s ev) = Some r \<and> decodedChannels (step s ev) = decodedChannels s"
proof (cases ev)
  case (Feed decodeFrame data)
  have l: "latch s d = s" for d using assms by (simp add: latch_def)
  have "decodedSampleRate (state_of (feed_decoded s d)) = Some r
        \<and> decodedChannels (state_of (feed_decoded s d)) = decodedChannels s" for d
    using assms by (cases "channelData d") (simp_all add: feed_decoded_def l)
  with Feed assms show ?thesis by (simp add: feed_def split: sum.splits)
next
  case (Tick now)
  with assms show ?thesis by simp
next
  case Destroy
  with assms show ?thesis by simp
qed

lemma run_latched:
  "decodedSampleRate s = Some r \<Longrightarrow>
   decodedSampleRate (run s evs) = Some r \<and> decodedChannels (run s evs) = decodedChannels s"
proof (induction evs arbitrary: s)
  case Nil
  then show ?case by simp
next
  case (Cons ev evs)
  from step_latched[OF Cons.prems, of ev] Cons.IH[of "step s ev"]
  show ?case by simp
qed

lemma step_unlatched:
  assumes "decodedSampleRate s = None"
  shows "decodedSampleRate (step s ev) = map_option frameRate (decoded_by ev)"
    and "decodedChannels (step s ev)
           = (case decoded_by ev of None \<Rightarrow> decodedChannels s
              | Some d \<Rightarrow> Some (length (channelData d)))"
proof -
  have f: "decodedSampleRate (state_of (feed_decoded s d)) = Some (frameRate d)
        \<and> decodedChannels (state_of (feed_decoded s d)) = Some (length (channelData d))" for d
    using assms by (cases "channelData d") (simp_all add: feed_decoded_def latch_def)
  show "decodedSampleRate (step s ev) = map_option frameRate (decoded_by ev)"
    using assms f by (cases ev) (simp_all add: feed_def split: sum.splits)
  show "decodedChannels (step s ev)
           = (case decoded_by ev of None \<Rightarrow> decodedChannels s
              | Some d \<Rightarrow> Some (length (channelData d)))"
    using assms f by (cases ev) (simp_all add: feed_def split: sum.splits)
qed

lemma run_format:
  assumes "decodedSampleRate s = None" and "decodedChannels s = None"
  shows "decodedSampleRate (run s evs) = map_option frameRate (first_decoded evs)
       \<and> decodedChannels (run s evs)
           = map_option (\<lambda>d. length (channelData d)) (first_decoded evs)"
  using assms
proof (induction evs arbitrary: s)
  case Nil
  then show ?case by simp
next
  case (Cons ev evs)
  note u = step_unlatched[OF Cons.prems(1), of ev]
  show ?case
  proof (cases "decoded_by ev")
    case None
    with u Cons.prems have "decodedSampleRate (step s ev) = None" "decodedChannels (step s ev) = None"
      by simp_all
    from Cons.IH[OF this] None show ?thesis by simp
  next
    case (Some d)
    with u have "decodedSampleRate (step s ev) = Some (frameRate d)"
      "decodedChannels (step s ev) = Some (length (channelData d))" by simp_all
    with run_latched[of "step s ev" "frameRate d" evs] Some show ?thesis by simp
  qed
qed

subsection \<open>Steps in closed form\<close>

lemma step_Feed:
  assumes "isTypedArray data" and "packet_of data = Inr p" and "decodeFrame p = Inr d"
    and "channelData d = first # rest" and "length first = n"
  shows "step s (Feed decodeFrame data)
           = (latch s d)\<lparr>samples := samples s @ interleave (first # rest) n\<rparr>"
  using assms by (simp add: feed_def feed_decoded_Cons)

lemma step_Tick:
  assumes "intervalActive s" and "frameSize s = fz" and "length (samples s) = n"
    and "0 < fz" and "fz \<le> n"
  shows "step s (Tick now) =
    s\<lparr>started := started s @
       [\<lparr>src_buffer =
           \<lparr>numberOfChannels = effective_channels s,
            buffer_length = frameSamples s * (n div fz),
            buffer_rate = effective_rate s,
            channel_data =
              map (\<lambda>c. map (\<lambda>i. read_f32 (samples s) (c + i * effective_channels s))
                          [0..<frameSamples s * (n div fz)])
                  [0..<effective_channels s]\<rparr>,
         src_start = max (startTime s) now, src_now = now\<rparr>],
      startTime := max (startTime s) now
         + real (frameSamples s * (n div fz)) / real (effective_rate s),
      samples := drop (n div fz * fz) (samples s)\<rparr>"
proof -
  have "0 < frameSize s" "frameSize s \<le> length (samples s)" using assms by simp_all
  from flush_emit[OF this, of now] assms show ?thesis by simp
qed

subsection \<open>A run that schedules two buffers\<close>

text \<open>
  A player that flushes every millisecond. A first packet fails to decode and the timer
  ticks on an empty backlog. Then a mono block of 8 samples at 8000 Hz, one frame, is
  decoded and flushed at 1 ms, and a second block is decoded and flushed at 1.5 ms, while
  the first buffer is still playing.
\<close>

lemma run_before_second_flush:
  "run (create \<lparr>given_encoding = None, given_channels = None,
              given_sampleRate = None, given_flushingTime = Some 1\<rparr> 0)
     [Feed (\<lambda>p. Inl DecodeError) (JObject (JNumber 1) (JArrayBuffer [7]) (Some 0)),
      Tick 0,
      Feed (\<lambda>p. Inr \<lparr>channelData = [[F32 1, F32 2, F32 3, F32 4, F32 5, F32 6, F32 7, F32 8]], frameRate = 8000\<rparr>)
        (JObject (JNumber 1) (JArrayBuffer [7]) (Some 0)),
      Tick (1 / 1000),
      Feed (\<lambda>p. Inr \<lparr>channelData = [[F32 9, F32 10, F32 11, F32 12, F32 13, F32 14, F32 15, F32 16]], frameRate = 8000\<rparr>)
        (JObject (JNumber 1) (JArrayBuffer [7]) (Some 0))]
   = \<lparr>option = \<lparr>encoding = Int16, channels = 2, sampleRate = 48000, flushingTime = 1\<rparr>,
      samples = [F32 9, F32 10, F32 11, F32 12, F32 13, F32 14, F32 15, F32 16], startTime = 2 / 1000,
      decodedSampleRate = Some 8000, decodedChannels = Some 1,
      intervalActive = True, ctxClosed = False,
      started = [\<lparr>src_buffer = \<lparr>numberOfChannels = 1, buffer_length = 8, buffer_rate = 8000,
                         channel_data = [[F32 1, F32 2, F32 3, F32 4, F32 5, F32 6, F32 7, F32 8]]\<rparr>,
          src_start = 1 / 1000, src_now = 1 / 1000\<rparr>]\<rparr>"
proof -
  let ?data = "JObject (JNumber 1) (JArrayBuffer [7]) (Some 0)"
  let ?d1 = "\<lparr>channelData = [[F32 1, F32 2, F32 3, F32 4, F32 5, F32 6, F32 7, F32 8]], frameRate = 8000\<rparr>"
  let ?d2 = "\<lparr>channelData = [[F32 9, F32 10, F32 11, F32 12, F32 13, F32 14, F32 15, F32 16]], frameRate = 8000\<rparr>"
  let ?s0 = "\<lparr>option = \<lparr>encoding = Int16, channels = 2, sampleRate = 48000, flushingTime = 1\<rparr>,
      samples = [], startTime = 0,
      decodedSampleRate = None, decodedChannels = None,
      intervalActive = True, ctxClosed = False,
      started = []\<rparr>"
  let ?s1 = "\<lparr>option = \<lparr>encoding = Int16, channels = 2, sampleRate = 48000, flushingTime = 1\<rparr>,
      samples = [F32 1, F32 2, F32 3, F32 4, F32 5, F32 6, F32 7, F32 8], startTime = 0,
      decodedSampleRate = Some 8000, decodedChannels = Some 1,
      intervalActive = True, ctxClosed = False,
      started = []\<rparr>"
  let ?s2 = "\<lparr>option = \<lparr>encoding = Int16, channels = 2, sampleRate = 48000, flushingTime = 1\<rparr>,
      samples = [], startTime = 2 / 1000,
      decodedSampleRate = Some 8000, decodedChannels = Some 1,
      intervalActive = True, ctxClosed = False,
      started = [\<lparr>src_buffer = \<lparr>numberOfChannels = 1, buffer_length = 8, buffer_rate = 8000,
                         channel_data = [[F32 1, F32 2, F32 3, F32 4, F32 5, F32 6, F32 7, F32 8]]\<rparr>,
          src_start = 1 / 1000, src_now = 1 / 1000\<rparr>]\<rparr>"
  let ?s3 = "\<lparr>option = \<lparr>encoding = Int16, channels = 2, sampleRate = 48000, flushingTime = 1\<rparr>,
      samples = [F32 9, F32 10, F32 11, F32 12, F32 13, F32 14, F32 15, F32 16], startTime = 2 / 1000,
      decodedSampleRate = Some 8000, decodedChannels = Some 1,
      intervalActive = True, ctxClosed = False,
      started = [\<lparr>src_buffer = \<lparr>numberOfChannels = 1, buffer_length = 8, buffer_rate = 8000,
                         channel_data = [[F32 1, F32 2, F32 3, F32 4, F32 5, F32 6, F32 7, F32 8]]\<rparr>,
          src_start = 1 / 1000, src_now = 1 / 1000\<rparr>]\<rparr>"
  have c0: "create \<lparr>given_encoding = None, given_channels = None,
              given_sampleRate = None, given_flushingTime = Some 1\<rparr> 0 = ?s0"
    by (simp add: create_def initOptions_def)
  have ta: "isTypedArray ?data" by (simp add: isTypedArray_def)
  have pk: "packet_of ?data = Inr [7]"
    by (simp add: packet_of_def new_Uint8Array_def to_index_def)
  have [simp]: "interleave [[F32 1, F32 2, F32 3, F32 4, F32 5, F32 6, F32 7, F32 8]] 8 = [F32 1, F32 2, F32 3, F32 4, F32 5, F32 6, F32 7, F32 8]"
    by code_simp
  have [simp]: "interleave [[F32 9, F32 10, F32 11, F32 12, F32 13, F32 14, F32 15, F32 16]] 8 = [F32 9, F32 10, F32 11, F32 12, F32 13, F32 14, F32 15, F32 16]"
    by code_simp
  have 1: "step ?s0 (Feed (\<lambda>p. Inl DecodeError) ?data) = ?s0"
    by (simp add: feed_def ta pk)
  have "fullFrames ?s0 = Finite 0"
    by (simp add: fullFrames_Finite_0_iff frameSize_def frameSamples_def effective_rate_def
          effective_channels_def)
  then have 2: "step ?s0 (Tick 0) = ?s0" by (simp add: flush_noop)
  have 3: "step ?s0 (Feed (\<lambda>p. Inr ?d1) ?data) = ?s1"
    by (subst step_Feed[where decodeFrame = "\<lambda>p. Inr ?d1" and d = ?d1 and rest = "[]"
                        and first = "[F32 1, F32 2, F32 3, F32 4, F32 5, F32 6, F32 7, F32 8]" and n = 8, OF ta pk])
       (simp_all add: latch_def)
  have 4: "step ?s1 (Tick (1 / 1000)) = ?s2"
    by (subst step_Tick[of _ 8 8])
       (simp_all add: frameSize_def frameSamples_def effective_rate_def effective_channels_def
          read_f32_def upt_conv_Cons)
  have 5: "step ?s2 (Feed (\<lambda>p. Inr ?d2) ?data) = ?s3"
    by (subst step_Feed[where decodeFrame = "\<lambda>p. Inr ?d2" and d = ?d2 and rest = "[]"
                        and first = "[F32 9, F32 10, F32 11, F32 12, F32 13, F32 14, F32 15, F32 16]" and n = 8, OF ta pk])
       (simp_all add: latch_def)
  show ?thesis
    by (simp only: c0 run_Cons run_Nil 1 2 3 4 5)
qed

lemma second_flush:
  "flush
     \<lparr>option = \<lparr>encoding = Int16, channels = 2, sampleRate = 48000, flushingTime = 1\<rparr>,
      samples = [F32 9, F32 10, F32 11, F32 12, F32 13, F32 14, F32 15, F32 16], startTime = 2 / 1000,
      decodedSampleRate = Some 8000, decodedChannels = Some 1,
      intervalActive = True, ctxClosed = False,
      started = [\<lparr>src_buffer = \<lparr>numberOfChannels = 1, buffer_length = 8, buffer_rate = 8000,
                         channel_data = [[F32 1, F32 2, F32 3, F32 4, F32 5, F32 6, F32 7, F32 8]]\<rparr>,
          src_start = 1 / 1000, src_now = 1 / 1000\<rparr>]\<rparr>
     (3 / 2000)
   = Return
     \<lparr>option = \<lparr>encoding = Int16, channels = 2, sampleRate = 48000, flushingTime = 1\<rparr>,
      samples = [], startTime = 3 / 1000,
      decodedSampleRate = Some 8000, decodedChannels = Some 1,
      intervalActive = True, ctxClosed = False,
      started = [\<lparr>src_buffer = \<lparr>numberOfChannels = 1, buffer_length = 8, buffer_rate = 8000,
                         channel_data = [[F32 1, F32 2, F32 3, F32 4, F32 5, F32 6, F32 7, F32 8]]\<rparr>,
          src_start = 1 / 1000, src_now = 1 / 1000\<rparr>,
         \<lparr>src_buffer = \<lparr>numberOfChannels = 1, buffer_length = 8, buffer_rate = 8000,
                         channel_data = [[F32 9, F32 10, F32 11, F32 12, F32 13, F32 14, F32 15, F32 16]]\<rparr>,
          src_start = 2 / 1000, src_now = 3 / 2000\<rparr>]\<rparr>"
proof -
  let ?s3 = "\<lparr>option = \<lparr>encoding = Int16, channels = 2, sampleRate = 48000, flushingTime = 1\<rparr>,
      samples = [F32 9, F32 10, F32 11, F32 12, F32 13, F32 14, F32 15, F32 16], startTime = 2 / 1000,
      decodedSampleRate = Some 8000, decodedChannels = Some 1,
      intervalActive = True, ctxClosed = False,
      started = [\<lparr>src_buffer = \<lparr>numberOfChannels = 1, buffer_length = 8, buffer_rate = 8000,
                         channel_data = [[F32 1, F32 2, F32 3, F32 4, F32 5, F32 6, F32 7, F32 8]]\<rparr>,
          src_start = 1 / 1000, src_now = 1 / 1000\<rparr>]\<rparr>"
  have pos: "0 < frameSize ?s3" "frameSize ?s3 \<le> length (samples ?s3)"
    by (simp_all add: frameSize_def frameSamples_def effective_rate_def effective_channels_def)
  show ?thesis
    by (subst flush_emit[OF pos])
       (simp add: frameSize_def frameSamples_def effective_rate_def effective_channels_def
          read_f32_def upt_conv_Cons)
qed

lemma run_two_buffers:
  "run (create \<lparr>given_encoding = None, given_channels = None,
              given_sampleRate = None, given_flushingTime = Some 1\<rparr> 0)
     [Feed (\<lambda>p. Inl DecodeError) (JObject (JNumber 1) (JArrayBuffer [7]) (Some 0)),
      Tick 0,
      Feed (\<lambda>p. Inr \<lparr>channelData = [[F32 1, F32 2, F32 3, F32 4, F32 5, F32 6, F32 7, F32 8]], frameRate = 8000\<rparr>)
        (JObject (JNumber 1) (JArrayBuffer [7]) (Some 0)),
      Tick (1 / 1000),
      Feed (\<lambda>p. Inr \<lparr>channelData = [[F32 9, F32 10, F32 11, F32 12, F32 13, F32 14, F32 15, F32 16]], frameRate = 8000\<rparr>)
        (JObject (JNumber 1) (JArrayBuffer [7]) (Some 0)),
      Tick (3 / 2000)]
   = \<lparr>option = \<lparr>encoding = Int16, channels = 2, sampleRate = 48000, flushingTime = 1\<rparr>,
      samples = [], startTime = 3 / 1000,
      decodedSampleRate = Some 8000, decodedChannels = Some 1,
      intervalActive = True, ctxClosed = False,
      started = [\<lparr>src_buffer = \<lparr>numberOfChannels = 1, buffer_length = 8, buffer_rate = 8000,
                         channel_data = [[F32 1, F32 2, F32 3, F32 4, F32 5, F32 6, F32 7, F32 8]]\<rparr>,
          src_start = 1 / 1000, src_now = 1 / 1000\<rparr>,
         \<lparr>src_buffer = \<lparr>numberOfChannels = 1, buffer_length = 8, buffer_rate = 8000,
                         channel_data = [[F32 9, F32 10, F32 11, F32 12, F32 13, F32 14, F32 15, F32 16]]\<rparr>,
          src_start = 2 / 1000, src_now = 3 / 2000\<rparr>]\<rparr>"
proof -
  have "run (create \<lparr>given_encoding = None, given_channels = None,
              given_sampleRate = None, given_flushingTime = Some 1\<rparr> 0)
     [Feed (\<lambda>p. Inl DecodeError) (JObject (JNumber 1) (JArrayBuffer [7]) (Some 0)),
      Tick 0,
      Feed (\<lambda>p. Inr \<lparr>channelData = [[F32 1, F32 2, F32 3, F32 4, F32 5, F32 6, F32 7, F32 8]], frameRate = 8000\<rparr>)
        (JObject (JNumber 1) (JArrayBuffer [7]) (Some 0)),
      Tick (1 / 1000),
      Feed (\<lambda>p. Inr \<lparr>channelData = [[F32 9, F32 10, F32 11, F32 12, F32 13, F32 14, F32 15, F32 16]], frameRate = 8000\<rparr>)
        (JObject (JNumber 1) (JArrayBuffer [7]) (Some 0)),
      Tick (3 / 2000)]
        = step (run (create \<lparr>given_encoding = None, given_channels = None,
              given_sampleRate = None, given_flushingTime = Some 1\<rparr> 0)
     [Feed (\<lambda>p. Inl DecodeError) (JObject (JNumber 1) (JArrayBuffer [7]) (Some 0)),
      Tick 0,
      Feed (\<lambda>p. Inr \<lparr>channelData = [[F32 1, F32 2, F32 3, F32 4, F32 5, F32 6, F32 7, F32 8]], frameRate = 8000\<rparr>)
        (JObject (JNumber 1) (JArrayBuffer [7]) (Some 0)),
      Tick (1 / 1000),
      Feed (\<lambda>p. Inr \<lparr>channelData = [[F32 9, F32 10, F32 11, F32 12, F32 13, F32 14, F32 15, F32 16]], frameRate = 8000\<rparr>)
        (JObject (JNumber 1) (JArrayBuffer [7]) (Some 0))]) (Tick (3 / 2000))"
    by (simp only: run_Cons run_Nil)
  then show ?thesis
    by (simp only: run_before_second_flush step.simps second_flush) simp
qed

subsection \<open>A run whose second flush comes late\<close>

text \<open>
  The same player and the same two blocks, with no tick on a short backlog: each block is
  in the backlog, one full frame, when the timer ticks. The second tick comes at 5 ms,
  after the first buffer has ended at 2 ms.
\<close>

lemma run_late_flush:
  shows "run (create \<lparr>given_encoding = None, given_channels = None,
              given_sampleRate = None, given_flushingTime = Some 1\<rparr> 0)
     [Feed (\<lambda>p. Inr \<lparr>channelData = [[F32 1, F32 2, F32 3, F32 4, F32 5, F32 6, F32 7, F32 8]], frameRate = 8000\<rparr>)
        (JObject (JNumber 1) (JArrayBuffer [7]) (Some 0))]
   = \<lparr>option = \<lparr>encoding = Int16, channels = 2, sampleRate = 48000, flushingTime = 1\<rparr>,
      samples = [F32 1, F32 2, F32 3, F32 4, F32 5, F32 6, F32 7, F32 8], startTime = 0,
      decodedSampleRate = Some 8000, decodedChannels = Some 1,
      intervalActive = True, ctxClosed = False,
      started = []\<rparr>"
    and "run (create \<lparr>given_encoding = None, given_channels = None,
              given_sampleRate = None, given_flushingTime = Some 1\<rparr> 0)
     [Feed (\<lambda>p. Inr \<lparr>channelData = [[F32 1, F32 2, F32 3, F32 4, F32 5, F32 6, F32 7, F32 8]], frameRate = 8000\<rparr>)
        (JObject (JNumber 1) (JArrayBuffer [7]) (Some 0)),
      Tick (1 / 1000),
      Feed (\<lambda>p. Inr \<lparr>channelData = [[F32 9, F32 10, F32 11, F32 12, F32 13, F32 14, F32 15, F32 16]], frameRate = 8000\<rparr>)
        (JObject (JNumber 1) (JArrayBuffer [7]) (Some 0))]
   = \<lparr>option = \<lparr>encoding = Int16, channels = 2, sampleRate = 48000, flushingTime = 1\<rparr>,
      samples = [F32 9, F32 10, F32 11, F32 12, F32 13, F32 14, F32 15, F32 16], startTime = 2 / 1000,
      decodedSampleRate = Some 8000, decodedChannels = Some 1,
      intervalActive = True, ctxClosed = False,
      started = [\<lparr>src_buffer = \<lparr>numberOfChannels = 1, buffer_length = 8, buffer_rate = 8000,
                         channel_data = [[F32 1, F32 2, F32 3, F32 4, F32 5, F32 6, F32 7, F32 8]]\<rparr>,
          src_start = 1 / 1000, src_now = 1 / 1000\<rparr>]\<rparr>"
    and "run (create \<lparr>given_encoding = None, given_channels = None,
              given_sampleRate = None, given_flushingTime = Some 1\<rparr> 0)
     [Feed (\<lambda>p. Inr \<lparr>channelData = [[F32 1, F32 2, F32 3, F32 4, F32 5, F32 6, F32 7, F32 8]], frameRate = 8000\<rparr>)
        (JObject (JNumber 1) (JArrayBuffer [7]) (Some 0)),
      Tick (1 / 1000),
      Feed (\<lambda>p. Inr \<lparr>channelData = [[F32 9, F32 10, F32 11, F32 12, F32 13, F32 14, F32 15, F32 16]], frameRate = 8000\<rparr>)
        (JObject (JNumber 1) (JArrayBuffer [7]) (Some 0)),
      Tick (5 / 1000)]
   = \<lparr>option = \<lparr>encoding = Int16, channels = 2, sampleRate = 48000, flushingTime = 1\<rparr>,
      samples = [], startTime = 6 / 1000,
      decodedSampleRate = Some 8000, decodedChannels = Some 1,
      intervalActive = True, ctxClosed = False,
      started = [\<lparr>src_buffer = \<lparr>numberOfChannels = 1, buffer_length = 8, buffer_rate = 8000,
                         channel_data = [[F32 1, F32 2, F32 3, F32 4, F32 5, F32 6, F32 7, F32 8]]\<rparr>,
          src_start = 1 / 1000, src_now = 1 / 1000\<rparr>,
         \<lparr>src_buffer = \<lparr>numberOfChannels = 1, buffer_length = 8, buffer_rate = 8000,
                         channel_data = [[F32 9, F32 10, F32 11, F32 12, F32 13, F32 14, F32 15, F32 16]]\<rparr>,
          src_start = 5 / 1000, src_now = 5 / 1000\<rparr>]\<rparr>"
proof -
  let ?data = "JObject (JNumber 1) (JArrayBuffer [7]) (Some 0)"
  let ?d1 = "\<lparr>channelData = [[F32 1, F32 2, F32 3, F32 4, F32 5, F32 6, F32 7, F32 8]], frameRate = 8000\<rparr>"
  let ?d2 = "\<lparr>channelData = [[F32 9, F32 10, F32 11, F32 12, F32 13, F32 14, F32 15, F32 16]], frameRate = 8000\<rparr>"
  let ?s0 = "\<lparr>option = \<lparr>encoding = Int16, channels = 2, sampleRate = 48000, flushingTime = 1\<rparr>,
      samples = [], startTime = 0,
      decodedSampleRate = None, decodedChannels = None,
      intervalActive = True, ctxClosed = False,
      started = []\<rparr>"
  let ?s1 = "\<lparr>option = \<lparr>encoding = Int16, channels = 2, sampleRate = 48000, flushingTime = 1\<rparr>,
      samples = [F32 1, F32 2, F32 3, F32 4, F32 5, F32 6, F32 7, F32 8], startTime = 0,
      decodedSampleRate = Some 8000, decodedChannels = Some 1,
      intervalActive = True, ctxClosed = False,
      started = []\<rparr>"
  let ?s2 = "\<lparr>option = \<lparr>encoding = Int16, channels = 2, sampleRate = 48000, flushingTime = 1\<rparr>,
      samples = [], startTime = 2 / 1000,
      decodedSampleRate = Some 8000, decodedChannels = Some 1,
      intervalActive = True, ctxClosed = False,
      started = [\<lparr>src_buffer = \<lparr>numberOfChannels = 1, buffer_length = 8, buffer_rate = 8000,
                         channel_data = [[F32 1, F32 2, F32 3, F32 4, F32 5, F32 6, F32 7, F32 8]]\<rparr>,
          src_start = 1 / 1000, src_now = 1 / 1000\<rparr>]\<rparr>"
  let ?s3 = "\<lparr>option = \<lparr>encoding = Int16, channels = 2, sampleRate = 48000, flushingTime = 1\<rparr>,
      samples = [F32 9, F32 10, F32 11, F32 12, F32 13, F32 14, F32 15, F32 16], startTime = 2 / 1000,
      decodedSampleRate = Some 8000, decodedChannels = Some 1,
      intervalActive = True, ctxClosed = False,
      started = [\<lparr>src_buffer = \<lparr>numberOfChannels = 1, buffer_length = 8, buffer_rate = 8000,
                         channel_data = [[F32 1, F32 2, F32 3, F32 4, F32 5, F32 6, F32 7, F32 8]]\<rparr>,
          src_start = 1 / 1000, src_now = 1 / 1000\<rparr>]\<rparr>"
  let ?s4 = "\<lparr>option = \<lparr>encoding = Int16, channels = 2, sampleRate = 48000, flushingTime = 1\<rparr>,
      samples = [], startTime = 6 / 1000,
      decodedSampleRate = Some 8000, decodedChannels = Some 1,
      intervalActive = True, ctxClosed = False,
      started = [\<lparr>src_buffer = \<lparr>numberOfChannels = 1, buffer_length = 8, buffer_rate = 8000,
                         channel_data = [[F32 1, F32 2, F32 3, F32 4, F32 5, F32 6, F32 7, F32 8]]\<rparr>,
          src_start = 1 / 1000, src_now = 1 / 1000\<rparr>,
         \<lparr>src_buffer = \<lparr>numberOfChannels = 1, buffer_length = 8, buffer_rate = 8000,
                         channel_data = [[F32 9, F32 10, F32 11, F32 12, F32 13, F32 14, F32 15, F32 16]]\<rparr>,
          src_start = 5 / 1000, src_now = 5 / 1000\<rparr>]\<rparr>"
  have c0: "create \<lparr>given_encoding = None, given_channels = None,
              given_sampleRate = None, given_flushingTime = Some 1\<rparr> 0 = ?s0"
    by (simp add: create_def initOptions_def)
  have ta: "isTypedArray ?data" by (simp add: isTypedArray_def)
  have pk: "packet_of ?data = Inr [7]"
    by (simp add: packet_of_def new_Uint8Array_def to_index_def)
  have [simp]: "interleave [[F32 1, F32 2, F32 3, F32 4, F32 5, F32 6, F32 7, F32 8]] 8 = [F32 1, F32 2, F32 3, F32 4, F32 5, F32 6, F32 7, F32 8]"
    by code_simp
  have [simp]: "interleave [[F32 9, F32 10, F32 11, F32 12, F32 13, F32 14, F32 15, F32 16]] 8 = [F32 9, F32 10, F32 11, F32 12, F32 13, F32 14, F32 15, F32 16]"
    by code_simp
  have 1: "step ?s0 (Feed (\<lambda>p. Inr ?d1) ?data) = ?s1"
    by (subst step_Feed[where decodeFrame = "\<lambda>p. Inr ?d1" and d = ?d1 and rest = "[]"
                        and first = "[F32 1, F32 2, F32 3, F32 4, F32 5, F32 6, F32 7, F32 8]" and n = 8, OF ta pk])
       (simp_all add: latch_def)
  have 2: "step ?s1 (Tick (1 / 1000)) = ?s2"
    by (subst step_Tick[of _ 8 8])
       (simp_all add: frameSize_def frameSamples_def effective_rate_def effective_channels_def
          read_f32_def upt_conv_Cons)
  have 3: "step ?s2 (Feed (\<lambda>p. Inr ?d2) ?data) = ?s3"
    by (subst step_Feed[where decodeFrame = "\<lambda>p. Inr ?d2" and d = ?d2 and rest = "[]"
                        and first = "[F32 9, F32 10, F32 11, F32 12, F32 13, F32 14, F32 15, F32 16]" and n = 8, OF ta pk])
       (simp_all add: latch_def)
  have 4: "step ?s3 (Tick (5 / 1000)) = ?s4"
    by (subst step_Tick[of _ 8 8])
       (simp_all add: frameSize_def frameSamples_def effective_rate_def effective_channels_def
          read_f32_def upt_conv_Cons)
  show "run (create \<lparr>given_encoding = None, given_channels = None,
              given_sampleRate = None, given_flushingTime = Some 1\<rparr> 0)
     [Feed (\<lambda>p. Inr \<lparr>channelData = [[F32 1, F32 2, F32 3, F32 4, F32 5, F32 6, F32 7, F32 8]], frameRate = 8000\<rparr>)
        (JObject (JNumber 1) (JArrayBuffer [7]) (Some 0))]
   = ?s1"
    by (simp only: c0 run_Cons run_Nil 1)
  show "run (create \<lparr>given_encoding = None, given_channels = None,
              given_sampleRate = None, given_flushingTime = Some 1\<rparr> 0)
     [Feed (\<lambda>p. Inr \<lparr>channelData = [[F32 1, F32 2, F32 3, F32 4, F32 5, F32 6, F32 7, F32 8]], frameRate = 8000\<rparr>)
        (JObject (JNumber 1) (JArrayBuffer [7]) (Some 0)),
      Tick (1 / 1000),
      Feed (\<lambda>p. Inr \<lparr>channelData = [[F32 9, F32 10, F32 11, F32 12, F32 13, F32 14, F32 15, F32 16]], frameRate = 8000\<rparr>)
        (JObject (JNumber 1) (JArrayBuffer [7]) (Some 0))]
   = ?s3"
    by (simp only: c0 run_Cons run_Nil 1 2 3)
  show "run (create \<lparr>given_encoding = None, given_channels = None,
              given_sampleRate = None, given_flushingTime = Some 1\<rparr> 0)
     [Feed (\<lambda>p. Inr \<lparr>channelData = [[F32 1, F32 2, F32 3, F32 4, F32 5, F32 6, F32 7, F32 8]], frameRate = 8000\<rparr>)
        (JObject (JNumber 1) (JArrayBuffer [7]) (Some 0)),
      Tick (1 / 1000),
      Feed (\<lambda>p. Inr \<lparr>channelData = [[F32 9, F32 10, F32 11, F32 12, F32 13, F32 14, F32 15, F32 16]], frameRate = 8000\<rparr>)
        (JObject (JNumber 1) (JArrayBuffer [7]) (Some 0)),
      Tick (5 / 1000)]
   = ?s4"
    by (simp only: c0 run_Cons run_Nil 1 2 3 4)
qed

section \<open>The claims\<close>

subsection \<open>Input that is not a typed array\<close>

text \<open>
  C8, as the code has it. \<^verbatim>\<open>feed\<close> returns at once, raising nothing and leaving the
  player as it was, for every input that \<open>isTypedArray\<close> rejects: a falsy value, a value
  whose \<^verbatim>\<open>byteLength\<close> is not a number, a value whose \<^verbatim>\<open>buffer\<close> is not an ArrayBuffer.
  The guard does not compare the declared byte length with the buffer. An input that
  passes it and whose byte range does not lie inside its buffer makes the
  \<^verbatim>\<open>Uint8Array\<close> constructor raise; the player is unchanged then, too.
\<close>

theorem feed_ignores_what_isTypedArray_rejects:
  "(\<not> isTypedArray data \<longrightarrow> feed decodeFrame s data = Return s)
   \<and> (isTypedArray data \<longrightarrow> packet_of data = Inl e \<longrightarrow> feed decodeFrame s data = Throw e s)"
  by (simp add: feed_def)

theorem feed_ignores_what_isTypedArray_rejects_witness:
  "\<not> isTypedArray (JObject JUndefined (JArrayBuffer [1, 2]) None)
   \<and> feed (\<lambda>p. Inl DecodeError) (create no_options 0) (JObject JUndefined (JArrayBuffer [1, 2]) None)
       = Return (create no_options 0)
   \<and> isTypedArray (JObject (JNumber 2) (JArrayBuffer [1, 2]) (Some 1))
   \<and> packet_of (JObject (JNumber 2) (JArrayBuffer [1, 2]) (Some 1)) = Inl RangeError
   \<and> feed (\<lambda>p. Inl DecodeError) (create no_options 0) (JObject (JNumber 2) (JArrayBuffer [1, 2]) (Some 1))
       = Throw RangeError (create no_options 0)"
  using feed_ignores_what_isTypedArray_rejects
          [where data = "JObject JUndefined (JArrayBuffer [1, 2]) None"
             and decodeFrame = "\<lambda>p. Inl DecodeError" and s = "create no_options 0"]
        feed_ignores_what_isTypedArray_rejects
          [where data = "JObject (JNumber 2) (JArrayBuffer [1, 2]) (Some 1)" and e = RangeError
             and decodeFrame = "\<lambda>p. Inl DecodeError" and s = "create no_options 0"]
  by (simp add: isTypedArray_def packet_of_def new_Uint8Array_def to_index_def)

text \<open>
  C8 as stated fails: the object \<^verbatim>\<open>{ byteLength: 5, buffer: new ArrayBuffer(2), byteOffset: 0 }\<close>
  declares more bytes than its buffer holds, passes the guard, and \<^verbatim>\<open>feed\<close> raises a
  RangeError.
\<close>

theorem feed_mismatched_length_counterexample:
  "isTypedArray (JObject (JNumber 5) (JArrayBuffer [0, 0]) (Some 0))
   \<and> raised (feed (\<lambda>p. Inl DecodeError) (create no_options 0)
                (JObject (JNumber 5) (JArrayBuffer [0, 0]) (Some 0))) = Some RangeError"
  by (simp add: feed_def isTypedArray_def packet_of_def new_Uint8Array_def to_index_def)

subsection \<open>Teardown\<close>

text \<open>
  C9. \<^verbatim>\<open>destroy\<close> is idempotent: a second call leaves the player as the first one left
  it, with the flush timer stopped, the backlog empty and the audio context closed.
\<close>

theorem destroy_idempotent:
  "destroy (destroy s) = destroy s
   \<and> intervalActive (destroy s) = False
   \<and> samples (destroy s) = []
   \<and> ctxClosed (destroy s) = True
   \<and> run s [Destroy, Destroy] = run s [Destroy]"
  by (simp add: destroy_def run_def)

subsection \<open>Interleaving\<close>

text \<open>
  C4. When the input is a typed array, its packet decodes, and the decoded block has
  at least one channel and \<open>n\<close> samples in every channel, \<^verbatim>\<open>feed\<close> appends to the
  backlog a block of \<open>n * channelCount\<close> samples whose element \<open>i * channelCount + c\<close> is
  sample \<open>i\<close> of channel \<open>c\<close>.
\<close>

theorem feed_appends_interleaved_block:
  assumes "isTypedArray data" and "packet_of data = Inr packet"
    and "decodeFrame packet = Inr d"
    and "channelData d \<noteq> []"
    and "\<forall>x\<in>set (channelData d). length x = n"
  shows "feed decodeFrame s data =
           Return ((latch s d)\<lparr>samples := samples s @ interleave (channelData d) n\<rparr>)
         \<and> length (interleave (channelData d) n) = n * length (channelData d)
         \<and> (\<forall>c<length (channelData d). \<forall>i<n.
               interleave (channelData d) n ! (i * length (channelData d) + c)
                 = channelData d ! c ! i)"
proof -
  obtain c0 rest where cd: "channelData d = c0 # rest"
    using assms(4) by (cases "channelData d") auto
  with assms(5) have n: "length c0 = n" by simp
  have "feed decodeFrame s data = feed_decoded s d"
    using assms(1-3) by (simp add: feed_def)
  then have 1: "feed decodeFrame s data =
           Return ((latch s d)\<lparr>samples := samples s @ interleave (channelData d) n\<rparr>)"
    using feed_decoded_Cons[OF cd, of s] n by simp
  have 3: "interleave (channelData d) n ! (i * length (channelData d) + c) = channelData d ! c ! i"
    if "c < length (channelData d)" "i < n" for c i
  proof -
    have "length (channelData d ! c) = n" using assms(5) that(1) by simp
    then show ?thesis
      using interleave_index(2)[OF that] that(2) by (simp add: read_f32_def)
  qed
  from 1 3 show ?thesis by (simp add: length_interleave)
qed

theorem feed_appends_interleaved_block_witness:
  "isTypedArray (JObject (JNumber 1) (JArrayBuffer [7]) (Some 0))
   \<and> packet_of (JObject (JNumber 1) (JArrayBuffer [7]) (Some 0)) = Inr [7]
   \<and> samples (state_of (feed (\<lambda>p. Inr \<lparr>channelData = [[F32 1, F32 2], [F32 3, F32 4]], frameRate = 48000\<rparr>)
         (create no_options 0) (JObject (JNumber 1) (JArrayBuffer [7]) (Some 0))))
       = [F32 1, F32 3, F32 2, F32 4]"
proof -
  let ?data = "JObject (JNumber 1) (JArrayBuffer [7]) (Some 0)"
  let ?d = "\<lparr>channelData = [[F32 1, F32 2], [F32 3, F32 4]], frameRate = 48000\<rparr>"
  have h1: "isTypedArray ?data" by (simp add: isTypedArray_def)
  have h2: "packet_of ?data = Inr [7]"
    by (simp add: packet_of_def new_Uint8Array_def to_index_def)
  have h3: "(\<lambda>p. Inr ?d) [7] = Inr ?d" by simp
  have h4: "channelData ?d \<noteq> []" by simp
  have h5: "\<forall>x\<in>set (channelData ?d). length x = 2" by simp
  have v: "interleave [[F32 1, F32 2], [F32 3, F32 4]] 2 = [F32 1, F32 3, F32 2, F32 4]"
    by code_simp
  from feed_appends_interleaved_block[OF h1 h2 h3 h4 h5, of "create no_options 0"] h1 h2 v
  show ?thesis by (simp add: create_def)
qed

text \<open>
  C10. The loop takes the block length from the first channel alone. \<^verbatim>\<open>feed\<close> fails at
  this step exactly when there is no channel. With a first channel \<open>c0\<close>, the appended
  block has \<open>length c0 * channelCount\<close> samples whatever the lengths of the other
  channels, a read beyond the end of a shorter channel stores \<open>NaN\<close>, and the reads of
  the loop are all in range exactly when every channel is at least as long as the first.
\<close>

theorem feed_block_length_from_first_channel:
  "(raised (feed_decoded s d) = None \<longleftrightarrow> channelData d \<noteq> [])
   \<and> (\<forall>c0 rest. channelData d = c0 # rest \<longrightarrow>
         samples (state_of (feed_decoded s d))
           = samples s @ interleave (channelData d) (length c0)
         \<and> length (interleave (channelData d) (length c0)) = length c0 * length (channelData d)
         \<and> (\<forall>c<length (channelData d). \<forall>i<length c0.
               interleave (channelData d) (length c0) ! (i * length (channelData d) + c)
                 = (if i < length (channelData d ! c) then channelData d ! c ! i else NaN32))
         \<and> ((\<forall>(c, i)\<in>set (interleave_reads (channelData d) (length c0)).
                 c < length (channelData d) \<and> i < length (channelData d ! c))
              \<longleftrightarrow> (\<forall>x\<in>set (channelData d). length c0 \<le> length x)))"
proof -
  have a: "raised (feed_decoded s d) = None \<longleftrightarrow> channelData d \<noteq> []"
    by (cases "channelData d") (simp_all add: feed_decoded_Nil feed_decoded_Cons)
  have b: "(\<forall>(c, i)\<in>set (interleave_reads cd len). c < length cd \<and> i < length (cd ! c))
              \<longleftrightarrow> (\<forall>x\<in>set cd. len \<le> length x)" for cd len
  proof -
    have "(\<forall>x\<in>set cd. len \<le> length x) \<longleftrightarrow> (\<forall>c<length cd. len \<le> length (cd ! c))"
      by (simp add: all_set_conv_all_nth)
    also have "\<dots> \<longleftrightarrow> (\<forall>c<length cd. \<forall>i<len. i < length (cd ! c))"
      by (meson not_le_imp_less order.strict_trans2 less_irrefl)
    finally show ?thesis by (auto simp: set_interleave_reads)
  qed
  have c: "samples (state_of (feed_decoded s d))
             = samples s @ interleave (channelData d) (length c0)"
    if "channelData d = c0 # rest" for c0 rest
    using that by (simp add: feed_decoded_Cons)
  have e: "interleave cd len ! (i * length cd + c)
             = (if i < length (cd ! c) then cd ! c ! i else NaN32)"
    if "c < length cd" "i < len" for cd len c i
    using interleave_index(2)[OF that] by (simp add: read_f32_def)
  show ?thesis
  proof (intro conjI allI impI)
    show "raised (feed_decoded s d) = None \<longleftrightarrow> channelData d \<noteq> []" by (rule a)
  next
    fix c0 rest assume "channelData d = c0 # rest"
    then show "samples (state_of (feed_decoded s d))
                 = samples s @ interleave (channelData d) (length c0)" by (rule c)
  next
    fix c0 :: "sample list"
    show "length (interleave (channelData d) (length c0)) = length c0 * length (channelData d)"
      by (rule length_interleave)
  next
    fix c0 :: "sample list" and c i
    assume "c < length (channelData d)" "i < length c0"
    then show "interleave (channelData d) (length c0) ! (i * length (channelData d) + c)
                 = (if i < length (channelData d ! c) then channelData d ! c ! i else NaN32)"
      by (rule e)
  next
    fix c0 :: "sample list"
    show "(\<forall>(c, i)\<in>set (interleave_reads (channelData d) (length c0)).
                 c < length (channelData d) \<and> i < length (channelData d ! c))
              \<longleftrightarrow> (\<forall>x\<in>set (channelData d). length c0 \<le> length x)"
      by (rule b)
  qed
qed

theorem feed_block_length_from_first_channel_witness:
  "raised (feed_decoded (create no_options 0)
             \<lparr>channelData = [[F32 1, F32 2], [F32 3]], frameRate = 48000\<rparr>) = None
   \<and> samples (state_of (feed_decoded (create no_options 0)
             \<lparr>channelData = [[F32 1, F32 2], [F32 3]], frameRate = 48000\<rparr>))
       = [F32 1, F32 3, F32 2, NaN32]"
proof -
  let ?d = "\<lparr>channelData = [[F32 1, F32 2], [F32 3]], frameRate = 48000\<rparr>"
  have cd: "channelData ?d = [F32 1, F32 2] # [[F32 3]]" by simp
  have v: "interleave [[F32 1, F32 2], [F32 3]] 2 = [F32 1, F32 3, F32 2, NaN32]"
    by code_simp
  have l: "length [F32 1, F32 2] = 2" by simp
  note t = feed_block_length_from_first_channel[of "create no_options 0" ?d]
  from t[THEN conjunct1] have r: "raised (feed_decoded (create no_options 0) ?d) = None"
    by simp
  from t[THEN conjunct2, THEN spec, THEN spec, THEN mp, OF cd, THEN conjunct1]
  have "samples (state_of (feed_decoded (create no_options 0) ?d))
           = samples (create no_options 0) @ interleave (channelData ?d) (length [F32 1, F32 2])" .
  with r show ?thesis unfolding l by (simp add: v create_def)
qed

text \<open>
  C5. Blocks of the same number of channels (at least one), each with channels of equal
  length, fed one after the other leave the backlog that feeding their concatenation as
  a single block leaves: the result does not depend on how the samples are cut into
  blocks.
\<close>

theorem feed_chunking_invariant:
  assumes "0 < ch"
    and "\<forall>d\<in>set ds. length (channelData d) = ch
            \<and> (\<forall>x\<in>set (channelData d). length x = length (channelData d ! 0))"
  shows "samples (feed_all s ds)
           = samples (state_of (feed_decoded s
               \<lparr>channelData = concat_blocks ch (map channelData ds), frameRate = r\<rparr>))"
proof -
  let ?bs = "map channelData ds"
  let ?N = "sum_list (map (\<lambda>b. length (b ! 0)) ?bs)"
  have ne: "\<forall>d\<in>set ds. channelData d \<noteq> []" using assms by auto
  have wf: "\<forall>b\<in>set ?bs. length b = ch \<and> (\<forall>x\<in>set b. length x = length (b ! 0))"
    using assms(2) by simp
  have "concat_blocks ch ?bs ! 0 \<in> set (concat_blocks ch ?bs)"
    using assms(1) by (intro nth_mem) simp
  then have l0: "length (concat_blocks ch ?bs ! 0) = ?N"
    using concat_blocks_rect[OF wf] by blast
  have cne: "concat_blocks ch ?bs \<noteq> []" using assms(1) by (simp add: concat_blocks_def)
  have "samples (feed_all s ds)
          = samples s @ concat (map (\<lambda>b. interleave b (length (b ! 0))) ?bs)"
    by (simp add: feed_all_samples[OF ne] comp_def)
  also have "\<dots> = samples s @ interleave (concat_blocks ch ?bs) ?N"
    by (simp only: interleave_concat_blocks[OF assms(1) wf])
  also have "\<dots> = samples (state_of (feed_decoded s
               \<lparr>channelData = concat_blocks ch ?bs, frameRate = r\<rparr>))"
    using cne by (simp add: feed_decoded_samples l0)
  finally show ?thesis .
qed

theorem feed_chunking_invariant_witness:
  "samples (feed_all (create no_options 0)
      [\<lparr>channelData = [[F32 1], [F32 2]], frameRate = 48000\<rparr>,
       \<lparr>channelData = [[F32 3, F32 5], [F32 4, F32 6]], frameRate = 48000\<rparr>])
   = [F32 1, F32 2, F32 3, F32 4, F32 5, F32 6]
   \<and> concat_blocks 2 [[[F32 1], [F32 2]], [[F32 3, F32 5], [F32 4, F32 6]]]
       = [[F32 1, F32 3, F32 5], [F32 2, F32 4, F32 6]]"
proof -
  let ?d1 = "\<lparr>channelData = [[F32 1], [F32 2]], frameRate = 48000\<rparr>"
  let ?d2 = "\<lparr>channelData = [[F32 3, F32 5], [F32 4, F32 6]], frameRate = 48000\<rparr>"
  have h1: "0 < (2::nat)" by simp
  have h2: "\<forall>d\<in>set [?d1, ?d2]. length (channelData d) = 2
            \<and> (\<forall>x\<in>set (channelData d). length x = length (channelData d ! 0))"
    by simp
  have cb: "concat_blocks 2 [[[F32 1], [F32 2]], [[F32 3, F32 5], [F32 4, F32 6]]]
       = [[F32 1, F32 3, F32 5], [F32 2, F32 4, F32 6]]"
    by code_simp
  have il: "interleave [[F32 1, F32 3, F32 5], [F32 2, F32 4, F32 6]] 3
       = [F32 1, F32 2, F32 3, F32 4, F32 5, F32 6]"
    by code_simp
  have l3: "length [F32 1, F32 3, F32 5] = 3" by simp
  have "samples (state_of (feed_decoded (create no_options 0)
               \<lparr>channelData = [[F32 1, F32 3, F32 5], [F32 2, F32 4, F32 6]], frameRate = 48000\<rparr>))
        = [F32 1, F32 2, F32 3, F32 4, F32 5, F32 6]"
    by (subst feed_decoded_Cons[of _ "[F32 1, F32 3, F32 5]" "[[F32 2, F32 4, F32 6]]"])
       (simp_all only: l3 il decoded.simps state_of.simps player.simps samples_latch, simp_all add: create_def)
  with feed_chunking_invariant[OF h1 h2, of "create no_options 0" 48000] cb
  show ?thesis by simp
qed

text \<open>
  C6. The loop of \<^verbatim>\<open>flush\<close> undoes the loop of \<^verbatim>\<open>feed\<close>, and conversely: de-interleaving
  the interleaving of a block gives the block back, and interleaving the
  de-interleaving of a whole number of frames gives the samples back. In the player: a
  block fed to a fresh player that fills a whole number of flush frames comes out of the
  next \<^verbatim>\<open>flush\<close> as the channels of the scheduled buffer.
\<close>

theorem deinterleave_inverts_interleave:
  "((\<forall>x\<in>set cd. length x = n) \<longrightarrow>
       deinterleave (interleave cd n) (length cd) n
         (replicate (length cd) (replicate n (F32 0))) = cd)
   \<and> (0 < ch \<and> length xs = n * ch \<longrightarrow>
       interleave (deinterleave xs ch n (replicate ch (replicate n (F32 0)))) n = xs)
   \<and> (decodedSampleRate s = None \<and> samples s = [] \<and> channelData d \<noteq> []
        \<and> (\<forall>x\<in>set (channelData d). length x = m) \<and> 0 < m
        \<and> m = frameSamples (state_of (feed_decoded s d)) * k \<longrightarrow>
       channel_data (src_buffer (last (started (state_of
            (flush (state_of (feed_decoded s d)) now))))) = channelData d)"
  using deinterleave_interleave[of cd n] interleave_deinterleave[of ch xs n]
        feed_then_flush(1)[of s d m k now]
  by blast


theorem deinterleave_inverts_interleave_witness:
  "interleave [[F32 1, F32 2], [F32 3, F32 4]] 2 = [F32 1, F32 3, F32 2, F32 4]
   \<and> deinterleave [F32 1, F32 3, F32 2, F32 4] 2 2 [[F32 0, F32 0], [F32 0, F32 0]]
       = [[F32 1, F32 2], [F32 3, F32 4]]
   \<and> interleave (deinterleave [F32 1, F32 3, F32 2, F32 4] 2 2 [[F32 0, F32 0], [F32 0, F32 0]]) 2
       = [F32 1, F32 3, F32 2, F32 4]
   \<and> frameSamples (state_of (feed_decoded
          (create \<lparr>given_encoding = None, given_channels = None,
                    given_sampleRate = None, given_flushingTime = Some 1\<rparr> 0)
          \<lparr>channelData = [[F32 1, F32 2, F32 3, F32 4, F32 5, F32 6, F32 7, F32 8],
          [F32 9, F32 10, F32 11, F32 12, F32 13, F32 14, F32 15, F32 16]], frameRate = 8000\<rparr>)) = 8
   \<and> channel_data (src_buffer (last (started (state_of (flush (state_of (feed_decoded
          (create \<lparr>given_encoding = None, given_channels = None,
                    given_sampleRate = None, given_flushingTime = Some 1\<rparr> 0)
          \<lparr>channelData = [[F32 1, F32 2, F32 3, F32 4, F32 5, F32 6, F32 7, F32 8],
          [F32 9, F32 10, F32 11, F32 12, F32 13, F32 14, F32 15, F32 16]], frameRate = 8000\<rparr>)) 0)))))
       = [[F32 1, F32 2, F32 3, F32 4, F32 5, F32 6, F32 7, F32 8],
          [F32 9, F32 10, F32 11, F32 12, F32 13, F32 14, F32 15, F32 16]]"
proof -
  let ?cd = "[[F32 1, F32 2], [F32 3, F32 4]]"
  let ?xs = "[F32 1, F32 3, F32 2, F32 4]"
  let ?s = "create \<lparr>given_encoding = None, given_channels = None,
                    given_sampleRate = None, given_flushingTime = Some 1\<rparr> 0"
  let ?d = "\<lparr>channelData = [[F32 1, F32 2, F32 3, F32 4, F32 5, F32 6, F32 7, F32 8],
          [F32 9, F32 10, F32 11, F32 12, F32 13, F32 14, F32 15, F32 16]], frameRate = 8000\<rparr>"
  have il: "interleave ?cd 2 = ?xs" by code_simp
  have z: "replicate 2 (replicate 2 (F32 0)) = [[F32 0, F32 0], [F32 0, F32 0]]"
    by (simp add: numeral_2_eq_2)
  have r: "\<forall>x\<in>set ?cd. length x = 2" by simp
  have lc: "length ?cd = 2" and lx: "length ?xs = 2 * 2" by simp_all
  have fs: "frameSamples (state_of (feed_decoded ?s ?d)) = 8"
    by (simp add: feed_decoded_def latch_def create_def frameSamples_def effective_rate_def
          initOptions_def)
  have h: "decodedSampleRate ?s = None \<and> samples ?s = [] \<and> channelData ?d \<noteq> []
        \<and> (\<forall>x\<in>set (channelData ?d). length x = 8) \<and> 0 < (8::nat)
        \<and> 8 = frameSamples (state_of (feed_decoded ?s ?d)) * 1"
    using fs by (simp add: create_def)
  note t = deinterleave_inverts_interleave[of ?cd 2 2 ?xs ?s ?d 8 1 0]
  from t[THEN conjunct1, THEN mp, OF r]
  have a: "deinterleave ?xs 2 2 [[F32 0, F32 0], [F32 0, F32 0]] = ?cd"
    by (simp only: il lc z)
  have h0: "0 < (2::nat)" by simp
  from t[THEN conjunct2, THEN conjunct1, THEN mp, OF conjI[OF h0 lx]]
  have b: "interleave (deinterleave ?xs 2 2 [[F32 0, F32 0], [F32 0, F32 0]]) 2 = ?xs"
    by (simp only: z)
  from t[THEN conjunct2, THEN conjunct2, THEN mp, OF h]
  have c: "channel_data (src_buffer (last (started (state_of (flush (state_of (feed_decoded ?s ?d)) 0)))))
             = [[F32 1, F32 2, F32 3, F32 4, F32 5, F32 6, F32 7, F32 8],
          [F32 9, F32 10, F32 11, F32 12, F32 13, F32 14, F32 15, F32 16]]" by simp
  from il a b fs c show ?thesis by (intro conjI)
qed

subsection \<open>Draining complete frames\<close>

text \<open>
  C3, as the code has it. When \<open>fullFrames\<close> is 0, \<^verbatim>\<open>flush\<close> returns without raising and
  leaves the player as it was. When the frame size is positive, \<open>fullFrames\<close> is the
  integer quotient, it is 0 exactly when the backlog is shorter than a frame, and
  otherwise \<^verbatim>\<open>flush\<close> returns normally, schedules one buffer, and takes
  \<open>fullFrames * frameSize\<close> samples from the front of the backlog, which leaves fewer
  than \<open>frameSize\<close> samples.
\<close>

theorem flush_consumes_full_frames:
  "(fullFrames s = Finite 0 \<longrightarrow> flush s now = Return s)
   \<and> (0 < frameSize s \<longrightarrow>
        fullFrames s = Finite (length (samples s) div frameSize s)
        \<and> (fullFrames s = Finite 0 \<longleftrightarrow> length (samples s) < frameSize s)
        \<and> (fullFrames s \<noteq> Finite 0 \<longrightarrow>
              raised (flush s now) = None
              \<and> length (started (state_of (flush s now))) = Suc (length (started s))
              \<and> samples s = take (length (samples s) div frameSize s * frameSize s) (samples s)
                              @ samples (state_of (flush s now))
              \<and> length (samples (state_of (flush s now))) < frameSize s))"
proof (intro conjI impI)
  assume "fullFrames s = Finite 0"
  then show "flush s now = Return s" by (rule flush_noop)
next
  assume "0 < frameSize s"
  then show "fullFrames s = Finite (length (samples s) div frameSize s)"
    by (rule fullFrames_pos)
next
  assume "0 < frameSize s"
  then show "fullFrames s = Finite 0 \<longleftrightarrow> length (samples s) < frameSize s"
    by (simp add: fullFrames_Finite_0_iff)
next
  assume pos: "0 < frameSize s" and nz: "fullFrames s \<noteq> Finite 0"
  then have full: "frameSize s \<le> length (samples s)"
    by (simp add: fullFrames_Finite_0_iff)
  note e = flush_emit[OF pos full, of now]
  show "raised (flush s now) = None" by (simp add: e)
  show "length (started (state_of (flush s now))) = Suc (length (started s))"
    by (simp add: e)
  show "samples s = take (length (samples s) div frameSize s * frameSize s) (samples s)
                              @ samples (state_of (flush s now))"
    by (simp add: e)
  have "length (samples s) - length (samples s) div frameSize s * frameSize s
          = length (samples s) mod frameSize s"
    by (simp add: minus_div_mult_eq_mod)
  then show "length (samples (state_of (flush s now))) < frameSize s"
    using pos by (simp add: e)
qed

theorem flush_consumes_full_frames_witness:
  "fullFrames ((create \<lparr>given_encoding = None, given_channels = Some 1,
                 given_sampleRate = Some 8000, given_flushingTime = Some 1\<rparr> 0)
      \<lparr>samples := [F32 1, F32 2, F32 3]\<rparr>) = Finite 0
   \<and> flush ((create \<lparr>given_encoding = None, given_channels = Some 1,
                 given_sampleRate = Some 8000, given_flushingTime = Some 1\<rparr> 0)
      \<lparr>samples := [F32 1, F32 2, F32 3]\<rparr>) 0
       = Return ((create \<lparr>given_encoding = None, given_channels = Some 1,
                 given_sampleRate = Some 8000, given_flushingTime = Some 1\<rparr> 0)
      \<lparr>samples := [F32 1, F32 2, F32 3]\<rparr>)
   \<and> frameSize ((create \<lparr>given_encoding = None, given_channels = Some 1,
                 given_sampleRate = Some 8000, given_flushingTime = Some 1\<rparr> 0)
      \<lparr>samples := [F32 1, F32 2, F32 3, F32 4, F32 5, F32 6, F32 7, F32 8, F32 9]\<rparr>) = 8
   \<and> fullFrames ((create \<lparr>given_encoding = None, given_channels = Some 1,
                 given_sampleRate = Some 8000, given_flushingTime = Some 1\<rparr> 0)
      \<lparr>samples := [F32 1, F32 2, F32 3, F32 4, F32 5, F32 6, F32 7, F32 8, F32 9]\<rparr>) = Finite 1
   \<and> raised (flush ((create \<lparr>given_encoding = None, given_channels = Some 1,
                 given_sampleRate = Some 8000, given_flushingTime = Some 1\<rparr> 0)
      \<lparr>samples := [F32 1, F32 2, F32 3, F32 4, F32 5, F32 6, F32 7, F32 8, F32 9]\<rparr>) 0) = None
   \<and> samples (state_of (flush ((create \<lparr>given_encoding = None, given_channels = Some 1,
                 given_sampleRate = Some 8000, given_flushingTime = Some 1\<rparr> 0)
      \<lparr>samples := [F32 1, F32 2, F32 3, F32 4, F32 5, F32 6, F32 7, F32 8, F32 9]\<rparr>) 0)) = [F32 9]"
proof -
  let ?a = "(create \<lparr>given_encoding = None, given_channels = Some 1,
                 given_sampleRate = Some 8000, given_flushingTime = Some 1\<rparr> 0)
      \<lparr>samples := [F32 1, F32 2, F32 3]\<rparr>"
  let ?b = "(create \<lparr>given_encoding = None, given_channels = Some 1,
                 given_sampleRate = Some 8000, given_flushingTime = Some 1\<rparr> 0)
      \<lparr>samples := [F32 1, F32 2, F32 3, F32 4, F32 5, F32 6, F32 7, F32 8, F32 9]\<rparr>"
  have fa: "frameSize ?a = 8" and fb: "frameSize ?b = 8"
    by (simp_all add: frameSize_def frameSamples_def effective_rate_def effective_channels_def
          create_def initOptions_def)
  have la: "length (samples ?a) = 3" and lb: "samples ?b = [F32 1, F32 2, F32 3, F32 4, F32 5, F32 6, F32 7, F32 8, F32 9]"
    by simp_all
  have ffa: "fullFrames ?a = Finite 0"
    unfolding fullFrames_def fa la by (simp add: floor_div_def)
  have ffb: "fullFrames ?b = Finite 1"
    unfolding fullFrames_def fb lb by (simp add: floor_div_def)
  have nz: "fullFrames ?b \<noteq> Finite 0" unfolding ffb by simp
  have pos: "0 < frameSize ?b" unfolding fb by simp
  from flush_consumes_full_frames[of ?a 0, THEN conjunct1, THEN mp, OF ffa]
  have 1: "flush ?a 0 = Return ?a" .
  note t = flush_consumes_full_frames[of ?b 0, THEN conjunct2, THEN mp, OF pos]
  note u = t[THEN conjunct2, THEN conjunct2, THEN mp, OF nz]
  from u have 2: "raised (flush ?b 0) = None" by (rule conjunct1)
  from u[THEN conjunct2, THEN conjunct2, THEN conjunct1]
  have 3: "samples (state_of (flush ?b 0)) = [F32 9]"
    unfolding fb lb by simp
  from ffa 1 fb ffb 2 3 show ?thesis by (intro conjI)
qed

text \<open>
  C3 as stated, for every call of \<^verbatim>\<open>flush\<close>, fails when the frame size is 0. With
  \<^verbatim>\<open>flushingTime: 0\<close> a frame has no samples, \<open>fullFrames\<close> is \<open>0 / 0 = NaN\<close>, not 0, so
  \<^verbatim>\<open>flush\<close> goes on to \<^verbatim>\<open>createBuffer\<close> with a length of \<open>NaN\<close> and raises; the backlog
  is not left shorter than a frame.
\<close>

theorem flush_zero_frame_size_counterexample:
  "fullFrames (create \<lparr>given_encoding = None, given_channels = None,
                        given_sampleRate = None, given_flushingTime = Some 0\<rparr> 0) = NaN
   \<and> flush (create \<lparr>given_encoding = None, given_channels = None,
                      given_sampleRate = None, given_flushingTime = Some 0\<rparr> 0) 0
       = Throw NotSupportedError
           (create \<lparr>given_encoding = None, given_channels = None,
                      given_sampleRate = None, given_flushingTime = Some 0\<rparr> 0)
   \<and> \<not> length (samples (state_of (flush
           (create \<lparr>given_encoding = None, given_channels = None,
                      given_sampleRate = None, given_flushingTime = Some 0\<rparr> 0) 0)))
        < frameSize (create \<lparr>given_encoding = None, given_channels = None,
                        given_sampleRate = None, given_flushingTime = Some 0\<rparr> 0)"
proof -
  let ?s = "create \<lparr>given_encoding = None, given_channels = None,
                        given_sampleRate = None, given_flushingTime = Some 0\<rparr> 0"
  have z: "frameSize ?s = 0"
    by (simp add: frameSize_def frameSamples_def create_def initOptions_def)
  have e: "length (samples ?s) = 0" by (simp add: create_def)
  have "fullFrames ?s = NaN"
    unfolding fullFrames_def z e by (simp add: floor_div_def)
  with z flush_zero_frame[OF z, of 0] show ?thesis by simp
qed

subsection \<open>The playback clock\<close>

text \<open>
  C1, as the code has it. In a run of a player, take two buffers scheduled one after the
  other. The end of a buffer is its start plus its frame count divided by its sample
  rate. The second buffer starts at the later of two times, the end of the first buffer
  and the sink's current time when the second is scheduled. So it never starts before
  the first ends, and it starts exactly where the first ends if and only if the sink's
  clock has not passed that end when the second is scheduled.
\<close>

theorem successive_buffers_contiguous:
  assumes "Suc i < length (started (run (create g t0) evs))"
  shows "src_end (started (run (create g t0) evs) ! i)
           = src_start (started (run (create g t0) evs) ! i)
             + real (buffer_length (src_buffer (started (run (create g t0) evs) ! i)))
               / real (buffer_rate (src_buffer (started (run (create g t0) evs) ! i)))
    \<and> src_end (started (run (create g t0) evs) ! i)
          \<le> src_start (started (run (create g t0) evs) ! Suc i)
    \<and> src_start (started (run (create g t0) evs) ! Suc i)
          = max (src_end (started (run (create g t0) evs) ! i))
                (src_now (started (run (create g t0) evs) ! Suc i))
    \<and> (src_start (started (run (create g t0) evs) ! Suc i)
           = src_end (started (run (create g t0) evs) ! i)
         \<longleftrightarrow> src_now (started (run (create g t0) evs) ! Suc i)
               \<le> src_end (started (run (create g t0) evs) ! i))"
proof -
  let ?e = "started (run (create g t0) evs) ! i"
  let ?f = "started (run (create g t0) evs) ! Suc i"
  have "started (create g t0) = []" by (simp add: create_def)
  from run_schedule_contiguous[OF this, of evs] assms
  have m: "src_start ?f = max (src_end ?e) (src_now ?f)" by simp
  have 1: "src_end ?e = src_start ?e
             + real (buffer_length (src_buffer ?e)) / real (buffer_rate (src_buffer ?e))"
    by (simp add: src_end_def duration_def)
  have 2: "src_end ?e \<le> src_start ?f" by (simp add: m)
  have 3: "src_start ?f = src_end ?e \<longleftrightarrow> src_now ?f \<le> src_end ?e"
    unfolding m by (auto simp: max_def)
  from 1 2 m 3 show ?thesis by (intro conjI)
qed

theorem successive_buffers_contiguous_witness:
  "(let s = run (create \<lparr>given_encoding = None, given_channels = None,
              given_sampleRate = None, given_flushingTime = Some 1\<rparr> 0)
     [Feed (\<lambda>p. Inl DecodeError) (JObject (JNumber 1) (JArrayBuffer [7]) (Some 0)),
      Tick 0,
      Feed (\<lambda>p. Inr \<lparr>channelData = [[F32 1, F32 2, F32 3, F32 4, F32 5, F32 6, F32 7, F32 8]], frameRate = 8000\<rparr>)
        (JObject (JNumber 1) (JArrayBuffer [7]) (Some 0)),
      Tick (1 / 1000),
      Feed (\<lambda>p. Inr \<lparr>channelData = [[F32 9, F32 10, F32 11, F32 12, F32 13, F32 14, F32 15, F32 16]], frameRate = 8000\<rparr>)
        (JObject (JNumber 1) (JArrayBuffer [7]) (Some 0)),
      Tick (3 / 2000)]
    in length (started s) = 2
       \<and> src_start (started s ! 0) = 1 / 1000
       \<and> src_end (started s ! 0) = 2 / 1000
       \<and> src_now (started s ! 1) = 3 / 2000
       \<and> src_start (started s ! 1) = 2 / 1000)"
proof -
  let ?run = "run (create \<lparr>given_encoding = None, given_channels = None,
              given_sampleRate = None, given_flushingTime = Some 1\<rparr> 0)
     [Feed (\<lambda>p. Inl DecodeError) (JObject (JNumber 1) (JArrayBuffer [7]) (Some 0)),
      Tick 0,
      Feed (\<lambda>p. Inr \<lparr>channelData = [[F32 1, F32 2, F32 3, F32 4, F32 5, F32 6, F32 7, F32 8]], frameRate = 8000\<rparr>)
        (JObject (JNumber 1) (JArrayBuffer [7]) (Some 0)),
      Tick (1 / 1000),
      Feed (\<lambda>p. Inr \<lparr>channelData = [[F32 9, F32 10, F32 11, F32 12, F32 13, F32 14, F32 15, F32 16]], frameRate = 8000\<rparr>)
        (JObject (JNumber 1) (JArrayBuffer [7]) (Some 0)),
      Tick (3 / 2000)]"
  note r = run_two_buffers
  have len: "Suc 0 < length (started ?run)"
    by (simp only: r) simp
  have ends: "src_end (started ?run ! 0) = 2 / 1000"
    by (simp only: r) (simp add: src_end_def duration_def)
  have now: "src_now (started ?run ! Suc 0) = 3 / 2000"
    by (simp only: r) simp
  have le: "src_now (started ?run ! Suc 0) \<le> src_end (started ?run ! 0)"
    unfolding ends now by simp
  from successive_buffers_contiguous
         [OF len, THEN conjunct2, THEN conjunct2, THEN conjunct2, THEN iffD2, OF le]
  have "src_start (started ?run ! Suc 0) = 2 / 1000"
    unfolding ends .
  moreover have "length (started ?run) = 2" "src_start (started ?run ! 0) = 1 / 1000"
    by (simp_all only: r) simp_all
  ultimately show ?thesis using ends now by (simp add: Let_def)
qed

text \<open>
  C1 as stated fails. The backlog holds a full frame at both ticks, so no flush finds it
  short, but the second tick comes at 5 ms, after the first buffer has ended at 2 ms:
  \<^verbatim>\<open>flush\<close> moves \<^verbatim>\<open>startTime\<close> up to the sink's current time and the second buffer starts
  at 5 ms, not where the first ended.
\<close>

theorem late_flush_leaves_gap_counterexample:
  "fullFrames (run (create \<lparr>given_encoding = None, given_channels = None,
              given_sampleRate = None, given_flushingTime = Some 1\<rparr> 0)
     [Feed (\<lambda>p. Inr \<lparr>channelData = [[F32 1, F32 2, F32 3, F32 4, F32 5, F32 6, F32 7, F32 8]], frameRate = 8000\<rparr>)
        (JObject (JNumber 1) (JArrayBuffer [7]) (Some 0))]) = Finite 1
   \<and> fullFrames (run (create \<lparr>given_encoding = None, given_channels = None,
              given_sampleRate = None, given_flushingTime = Some 1\<rparr> 0)
     [Feed (\<lambda>p. Inr \<lparr>channelData = [[F32 1, F32 2, F32 3, F32 4, F32 5, F32 6, F32 7, F32 8]], frameRate = 8000\<rparr>)
        (JObject (JNumber 1) (JArrayBuffer [7]) (Some 0)),
      Tick (1 / 1000),
      Feed (\<lambda>p. Inr \<lparr>channelData = [[F32 9, F32 10, F32 11, F32 12, F32 13, F32 14, F32 15, F32 16]], frameRate = 8000\<rparr>)
        (JObject (JNumber 1) (JArrayBuffer [7]) (Some 0))]) = Finite 1
   \<and> length (started (run (create \<lparr>given_encoding = None, given_channels = None,
              given_sampleRate = None, given_flushingTime = Some 1\<rparr> 0)
     [Feed (\<lambda>p. Inr \<lparr>channelData = [[F32 1, F32 2, F32 3, F32 4, F32 5, F32 6, F32 7, F32 8]], frameRate = 8000\<rparr>)
        (JObject (JNumber 1) (JArrayBuffer [7]) (Some 0)),
      Tick (1 / 1000),
      Feed (\<lambda>p. Inr \<lparr>channelData = [[F32 9, F32 10, F32 11, F32 12, F32 13, F32 14, F32 15, F32 16]], frameRate = 8000\<rparr>)
        (JObject (JNumber 1) (JArrayBuffer [7]) (Some 0)),
      Tick (5 / 1000)])) = 2
   \<and> src_end (started (run (create \<lparr>given_encoding = None, given_channels = None,
              given_sampleRate = None, given_flushingTime = Some 1\<rparr> 0)
     [Feed (\<lambda>p. Inr \<lparr>channelData = [[F32 1, F32 2, F32 3, F32 4, F32 5, F32 6, F32 7, F32 8]], frameRate = 8000\<rparr>)
        (JObject (JNumber 1) (JArrayBuffer [7]) (Some 0)),
      Tick (1 / 1000),
      Feed (\<lambda>p. Inr \<lparr>channelData = [[F32 9, F32 10, F32 11, F32 12, F32 13, F32 14, F32 15, F32 16]], frameRate = 8000\<rparr>)
        (JObject (JNumber 1) (JArrayBuffer [7]) (Some 0)),
      Tick (5 / 1000)]) ! 0) = 2 / 1000
   \<and> src_now (started (run (create \<lparr>given_encoding = None, given_channels = None,
              given_sampleRate = None, given_flushingTime = Some 1\<rparr> 0)
     [Feed (\<lambda>p. Inr \<lparr>channelData = [[F32 1, F32 2, F32 3, F32 4, F32 5, F32 6, F32 7, F32 8]], frameRate = 8000\<rparr>)
        (JObject (JNumber 1) (JArrayBuffer [7]) (Some 0)),
      Tick (1 / 1000),
      Feed (\<lambda>p. Inr \<lparr>channelData = [[F32 9, F32 10, F32 11, F32 12, F32 13, F32 14, F32 15, F32 16]], frameRate = 8000\<rparr>)
        (JObject (JNumber 1) (JArrayBuffer [7]) (Some 0)),
      Tick (5 / 1000)]) ! 1) = 5 / 1000
   \<and> src_start (started (run (create \<lparr>given_encoding = None, given_channels = None,
              given_sampleRate = None, given_flushingTime = Some 1\<rparr> 0)
     [Feed (\<lambda>p. Inr \<lparr>channelData = [[F32 1, F32 2, F32 3, F32 4, F32 5, F32 6, F32 7, F32 8]], frameRate = 8000\<rparr>)
        (JObject (JNumber 1) (JArrayBuffer [7]) (Some 0)),
      Tick (1 / 1000),
      Feed (\<lambda>p. Inr \<lparr>channelData = [[F32 9, F32 10, F32 11, F32 12, F32 13, F32 14, F32 15, F32 16]], frameRate = 8000\<rparr>)
        (JObject (JNumber 1) (JArrayBuffer [7]) (Some 0)),
      Tick (5 / 1000)]) ! 1) = 5 / 1000
   \<and> src_start (started (run (create \<lparr>given_encoding = None, given_channels = None,
              given_sampleRate = None, given_flushingTime = Some 1\<rparr> 0)
     [Feed (\<lambda>p. Inr \<lparr>channelData = [[F32 1, F32 2, F32 3, F32 4, F32 5, F32 6, F32 7, F32 8]], frameRate = 8000\<rparr>)
        (JObject (JNumber 1) (JArrayBuffer [7]) (Some 0)),
      Tick (1 / 1000),
      Feed (\<lambda>p. Inr \<lparr>channelData = [[F32 9, F32 10, F32 11, F32 12, F32 13, F32 14, F32 15, F32 16]], frameRate = 8000\<rparr>)
        (JObject (JNumber 1) (JArrayBuffer [7]) (Some 0)),
      Tick (5 / 1000)]) ! 1)
       \<noteq> src_end (started (run (create \<lparr>given_encoding = None, given_channels = None,
              given_sampleRate = None, given_flushingTime = Some 1\<rparr> 0)
     [Feed (\<lambda>p. Inr \<lparr>channelData = [[F32 1, F32 2, F32 3, F32 4, F32 5, F32 6, F32 7, F32 8]], frameRate = 8000\<rparr>)
        (JObject (JNumber 1) (JArrayBuffer [7]) (Some 0)),
      Tick (1 / 1000),
      Feed (\<lambda>p. Inr \<lparr>channelData = [[F32 9, F32 10, F32 11, F32 12, F32 13, F32 14, F32 15, F32 16]], frameRate = 8000\<rparr>)
        (JObject (JNumber 1) (JArrayBuffer [7]) (Some 0)),
      Tick (5 / 1000)]) ! 0)"
proof -
  have 1: "fullFrames (run (create \<lparr>given_encoding = None, given_channels = None,
              given_sampleRate = None, given_flushingTime = Some 1\<rparr> 0)
     [Feed (\<lambda>p. Inr \<lparr>channelData = [[F32 1, F32 2, F32 3, F32 4, F32 5, F32 6, F32 7, F32 8]], frameRate = 8000\<rparr>)
        (JObject (JNumber 1) (JArrayBuffer [7]) (Some 0))]) = Finite 1"
    by (simp only: run_late_flush(1))
       (simp add: fullFrames_def floor_div_def frameSize_def frameSamples_def effective_rate_def
          effective_channels_def)
  have 2: "fullFrames (run (create \<lparr>given_encoding = None, given_channels = None,
              given_sampleRate = None, given_flushingTime = Some 1\<rparr> 0)
     [Feed (\<lambda>p. Inr \<lparr>channelData = [[F32 1, F32 2, F32 3, F32 4, F32 5, F32 6, F32 7, F32 8]], frameRate = 8000\<rparr>)
        (JObject (JNumber 1) (JArrayBuffer [7]) (Some 0)),
      Tick (1 / 1000),
      Feed (\<lambda>p. Inr \<lparr>channelData = [[F32 9, F32 10, F32 11, F32 12, F32 13, F32 14, F32 15, F32 16]], frameRate = 8000\<rparr>)
        (JObject (JNumber 1) (JArrayBuffer [7]) (Some 0))]) = Finite 1"
    by (simp only: run_late_flush(2))
       (simp add: fullFrames_def floor_div_def frameSize_def frameSamples_def effective_rate_def
          effective_channels_def)
  have 3: "length (started (run (create \<lparr>given_encoding = None, given_channels = None,
              given_sampleRate = None, given_flushingTime = Some 1\<rparr> 0)
     [Feed (\<lambda>p. Inr \<lparr>channelData = [[F32 1, F32 2, F32 3, F32 4, F32 5, F32 6, F32 7, F32 8]], frameRate = 8000\<rparr>)
        (JObject (JNumber 1) (JArrayBuffer [7]) (Some 0)),
      Tick (1 / 1000),
      Feed (\<lambda>p. Inr \<lparr>channelData = [[F32 9, F32 10, F32 11, F32 12, F32 13, F32 14, F32 15, F32 16]], frameRate = 8000\<rparr>)
        (JObject (JNumber 1) (JArrayBuffer [7]) (Some 0)),
      Tick (5 / 1000)])) = 2"
    by (simp only: run_late_flush(3)) simp
  have 4: "src_end (started (run (create \<lparr>given_encoding = None, given_channels = None,
              given_sampleRate = None, given_flushingTime = Some 1\<rparr> 0)
     [Feed (\<lambda>p. Inr \<lparr>channelData = [[F32 1, F32 2, F32 3, F32 4, F32 5, F32 6, F32 7, F32 8]], frameRate = 8000\<rparr>)
        (JObject (JNumber 1) (JArrayBuffer [7]) (Some 0)),
      Tick (1 / 1000),
      Feed (\<lambda>p. Inr \<lparr>channelData = [[F32 9, F32 10, F32 11, F32 12, F32 13, F32 14, F32 15, F32 16]], frameRate = 8000\<rparr>)
        (JObject (JNumber 1) (JArrayBuffer [7]) (Some 0)),
      Tick (5 / 1000)]) ! 0) = 2 / 1000"
    by (simp only: run_late_flush(3)) (simp add: src_end_def duration_def)
  have 5: "src_now (started (run (create \<lparr>given_encoding = None, given_channels = None,
              given_sampleRate = None, given_flushingTime = Some 1\<rparr> 0)
     [Feed (\<lambda>p. Inr \<lparr>channelData = [[F32 1, F32 2, F32 3, F32 4, F32 5, F32 6, F32 7, F32 8]], frameRate = 8000\<rparr>)
        (JObject (JNumber 1) (JArrayBuffer [7]) (Some 0)),
      Tick (1 / 1000),
      Feed (\<lambda>p. Inr \<lparr>channelData = [[F32 9, F32 10, F32 11, F32 12, F32 13, F32 14, F32 15, F32 16]], frameRate = 8000\<rparr>)
        (JObject (JNumber 1) (JArrayBuffer [7]) (Some 0)),
      Tick (5 / 1000)]) ! 1) = 5 / 1000"
    by (simp only: run_late_flush(3)) simp
  have 6: "src_start (started (run (create \<lparr>given_encoding = None, given_channels = None,
              given_sampleRate = None, given_flushingTime = Some 1\<rparr> 0)
     [Feed (\<lambda>p. Inr \<lparr>channelData = [[F32 1, F32 2, F32 3, F32 4, F32 5, F32 6, F32 7, F32 8]], frameRate = 8000\<rparr>)
        (JObject (JNumber 1) (JArrayBuffer [7]) (Some 0)),
      Tick (1 / 1000),
      Feed (\<lambda>p. Inr \<lparr>channelData = [[F32 9, F32 10, F32 11, F32 12, F32 13, F32 14, F32 15, F32 16]], frameRate = 8000\<rparr>)
        (JObject (JNumber 1) (JArrayBuffer [7]) (Some 0)),
      Tick (5 / 1000)]) ! 1) = 5 / 1000"
    by (simp only: run_late_flush(3)) simp
  have 7: "src_start (started (run (create \<lparr>given_encoding = None, given_channels = None,
              given_sampleRate = None, given_flushingTime = Some 1\<rparr> 0)
     [Feed (\<lambda>p. Inr \<lparr>channelData = [[F32 1, F32 2, F32 3, F32 4, F32 5, F32 6, F32 7, F32 8]], frameRate = 8000\<rparr>)
        (JObject (JNumber 1) (JArrayBuffer [7]) (Some 0)),
      Tick (1 / 1000),
      Feed (\<lambda>p. Inr \<lparr>channelData = [[F32 9, F32 10, F32 11, F32 12, F32 13, F32 14, F32 15, F32 16]], frameRate = 8000\<rparr>)
        (JObject (JNumber 1) (JArrayBuffer [7]) (Some 0)),
      Tick (5 / 1000)]) ! 1)
       \<noteq> src_end (started (run (create \<lparr>given_encoding = None, given_channels = None,
              given_sampleRate = None, given_flushingTime = Some 1\<rparr> 0)
     [Feed (\<lambda>p. Inr \<lparr>channelData = [[F32 1, F32 2, F32 3, F32 4, F32 5, F32 6, F32 7, F32 8]], frameRate = 8000\<rparr>)
        (JObject (JNumber 1) (JArrayBuffer [7]) (Some 0)),
      Tick (1 / 1000),
      Feed (\<lambda>p. Inr \<lparr>channelData = [[F32 9, F32 10, F32 11, F32 12, F32 13, F32 14, F32 15, F32 16]], frameRate = 8000\<rparr>)
        (JObject (JNumber 1) (JArrayBuffer [7]) (Some 0)),
      Tick (5 / 1000)]) ! 0)"
    unfolding 4 6 by simp
  from 1 2 3 4 5 6 7 show ?thesis by (intro conjI)
qed

text \<open>
  C2. A buffer that \<^verbatim>\<open>flush\<close> schedules starts at or after the sink's current time at
  that moment, and \<^verbatim>\<open>startTime\<close> never decreases: not in one \<^verbatim>\<open>flush\<close>, not along a
  run, however the run goes on.
\<close>

theorem start_never_before_now_and_clock_monotone:
  "startTime s \<le> startTime (state_of (flush s now))
   \<and> (\<forall>e\<in>set (drop (length (started s)) (started (state_of (flush s now)))).
         src_now e = now \<and> now \<le> src_start e)
   \<and> startTime s \<le> startTime (run s evs)
   \<and> startTime (run s evs) \<le> startTime (run s (evs @ evs'))
   \<and> (\<forall>e\<in>set (drop (length (started s)) (started (run s evs))). src_now e \<le> src_start e)"
proof (intro conjI)
  show "startTime s \<le> startTime (state_of (flush s now))"
    using flush_effect[of s now] by auto
  show "\<forall>e\<in>set (drop (length (started s)) (started (state_of (flush s now)))).
         src_now e = now \<and> now \<le> src_start e"
    using flush_effect[of s now] by auto
  show "startTime s \<le> startTime (run s evs)" by (rule run_startTime_mono)
  have "run s (evs @ evs') = run (run s evs) evs'" by (simp add: run_def)
  then show "startTime (run s evs) \<le> startTime (run s (evs @ evs'))"
    by (simp add: run_startTime_mono)
  show "\<forall>e\<in>set (drop (length (started s)) (started (run s evs))). src_now e \<le> src_start e"
    using run_started_new[of s evs] by auto
qed

theorem start_never_before_now_and_clock_monotone_witness:
  "(let s0 = create \<lparr>given_encoding = None, given_channels = None,
              given_sampleRate = None, given_flushingTime = Some 1\<rparr> 0;
        s = run s0
     [Feed (\<lambda>p. Inl DecodeError) (JObject (JNumber 1) (JArrayBuffer [7]) (Some 0)),
      Tick 0,
      Feed (\<lambda>p. Inr \<lparr>channelData = [[F32 1, F32 2, F32 3, F32 4, F32 5, F32 6, F32 7, F32 8]], frameRate = 8000\<rparr>)
        (JObject (JNumber 1) (JArrayBuffer [7]) (Some 0)),
      Tick (1 / 1000),
      Feed (\<lambda>p. Inr \<lparr>channelData = [[F32 9, F32 10, F32 11, F32 12, F32 13, F32 14, F32 15, F32 16]], frameRate = 8000\<rparr>)
        (JObject (JNumber 1) (JArrayBuffer [7]) (Some 0)),
      Tick (3 / 2000)]
    in startTime s0 = 0 \<and> startTime s = 3 / 1000 \<and> startTime s0 \<le> startTime s
       \<and> map src_now (drop (length (started s0)) (started s)) = [1 / 1000, 3 / 2000]
       \<and> map src_start (drop (length (started s0)) (started s)) = [1 / 1000, 2 / 1000]
       \<and> list_all (\<lambda>e. src_now e \<le> src_start e) (drop (length (started s0)) (started s)))"
proof -
  let ?s0 = "create \<lparr>given_encoding = None, given_channels = None,
              given_sampleRate = None, given_flushingTime = Some 1\<rparr> 0"
  let ?evs = "[Feed (\<lambda>p. Inl DecodeError) (JObject (JNumber 1) (JArrayBuffer [7]) (Some 0)),
      Tick 0,
      Feed (\<lambda>p. Inr \<lparr>channelData = [[F32 1, F32 2, F32 3, F32 4, F32 5, F32 6, F32 7, F32 8]], frameRate = 8000\<rparr>)
        (JObject (JNumber 1) (JArrayBuffer [7]) (Some 0)),
      Tick (1 / 1000),
      Feed (\<lambda>p. Inr \<lparr>channelData = [[F32 9, F32 10, F32 11, F32 12, F32 13, F32 14, F32 15, F32 16]], frameRate = 8000\<rparr>)
        (JObject (JNumber 1) (JArrayBuffer [7]) (Some 0)),
      Tick (3 / 2000)]"
  note t = start_never_before_now_and_clock_monotone[of ?s0 0 ?evs "[]"]
  from t have m: "startTime ?s0 \<le> startTime (run ?s0 ?evs)" by blast
  from t have b: "\<forall>e\<in>set (drop (length (started ?s0)) (started (run ?s0 ?evs))).
                    src_now e \<le> src_start e" by blast
  then have a: "list_all (\<lambda>e. src_now e \<le> src_start e)
                  (drop (length (started ?s0)) (started (run ?s0 ?evs)))"
    by (simp only: list_all_iff)
  have s0: "startTime ?s0 = 0" "length (started ?s0) = 0" by (simp_all add: create_def)
  have 1: "startTime (run ?s0 ?evs) = 3 / 1000" by (simp only: run_two_buffers) simp
  have 2: "map src_now (drop (length (started ?s0)) (started (run ?s0 ?evs))) = [1 / 1000, 3 / 2000]"
    "map src_start (drop (length (started ?s0)) (started (run ?s0 ?evs))) = [1 / 1000, 2 / 1000]"
    unfolding s0 by (simp_all only: run_two_buffers) simp_all
  from s0(1) 1 m 2 a show ?thesis unfolding Let_def by (intro conjI)
qed

subsection \<open>The decoded format\<close>

text \<open>
  C7. In a run of a player, the decoded sample rate and channel count are those of the
  first block the decoder returned, and unset when it returned none; once set they stay
  as they are, whatever happens next. \<^verbatim>\<open>flush\<close> computes with the decoded rate and
  channel count when they are set (and positive, as a stream format is), with the
  configured ones when they are not, and the buffer it schedules has that rate and that
  number of channels.
\<close>

theorem decoded_format_latched_once:
  "decodedSampleRate (run (create g t0) evs) = map_option frameRate (first_decoded evs)
   \<and> decodedChannels (run (create g t0) evs)
       = map_option (\<lambda>d. length (channelData d)) (first_decoded evs)
   \<and> (decodedSampleRate s = Some r \<longrightarrow>
         decodedSampleRate (run s evs') = Some r
         \<and> decodedChannels (run s evs') = decodedChannels s)
   \<and> (decodedSampleRate s = Some r \<and> 0 < r \<longrightarrow> effective_rate s = r)
   \<and> (decodedChannels s = Some c \<and> 0 < c \<longrightarrow> effective_channels s = c)
   \<and> (decodedSampleRate s = None \<longrightarrow> effective_rate s = sampleRate (option s))
   \<and> (decodedChannels s = None \<longrightarrow> effective_channels s = channels (option s))
   \<and> (\<forall>e\<in>set (drop (length (started s)) (started (state_of (flush s now)))).
         buffer_rate (src_buffer e) = effective_rate s
         \<and> numberOfChannels (src_buffer e) = effective_channels s
         \<and> length (channel_data (src_buffer e)) = effective_channels s)"
proof (intro conjI impI)
  have n: "decodedSampleRate (create g t0) = None" "decodedChannels (create g t0) = None"
    by (simp_all add: create_def)
  from run_format[OF n, of evs]
  show "decodedSampleRate (run (create g t0) evs) = map_option frameRate (first_decoded evs)"
    and "decodedChannels (run (create g t0) evs)
       = map_option (\<lambda>d. length (channelData d)) (first_decoded evs)"
    by simp_all
next
  assume "decodedSampleRate s = Some r"
  from run_latched[OF this, of evs']
  show "decodedSampleRate (run s evs') = Some r"
    and "decodedChannels (run s evs') = decodedChannels s" by simp_all
next
  assume "decodedSampleRate s = Some r \<and> 0 < r"
  then show "effective_rate s = r" by (simp add: effective_rate_def)
next
  assume "decodedChannels s = Some c \<and> 0 < c"
  then show "effective_channels s = c" by (simp add: effective_channels_def)
next
  assume "decodedSampleRate s = None"
  then show "effective_rate s = sampleRate (option s)" by (simp add: effective_rate_def)
next
  assume "decodedChannels s = None"
  then show "effective_channels s = channels (option s)" by (simp add: effective_channels_def)
next
  show "\<forall>e\<in>set (drop (length (started s)) (started (state_of (flush s now)))).
         buffer_rate (src_buffer e) = effective_rate s
         \<and> numberOfChannels (src_buffer e) = effective_channels s
         \<and> length (channel_data (src_buffer e)) = effective_channels s"
    using flush_effect[of s now] by auto
qed

theorem decoded_format_latched_once_witness:
  "(let s0 = create \<lparr>given_encoding = None, given_channels = None,
              given_sampleRate = None, given_flushingTime = Some 1\<rparr> 0;
        evs = [Feed (\<lambda>p. Inl DecodeError) (JObject (JNumber 1) (JArrayBuffer [7]) (Some 0)),
      Tick 0,
      Feed (\<lambda>p. Inr \<lparr>channelData = [[F32 1, F32 2, F32 3, F32 4, F32 5, F32 6, F32 7, F32 8]], frameRate = 8000\<rparr>)
        (JObject (JNumber 1) (JArrayBuffer [7]) (Some 0)),
      Tick (1 / 1000),
      Feed (\<lambda>p. Inr \<lparr>channelData = [[F32 9, F32 10, F32 11, F32 12, F32 13, F32 14, F32 15, F32 16]], frameRate = 8000\<rparr>)
        (JObject (JNumber 1) (JArrayBuffer [7]) (Some 0))];
        evs' = [Feed (\<lambda>p. Inr \<lparr>channelData = [[F32 0], [F32 0]], frameRate = 44100\<rparr>)
               (JObject (JNumber 1) (JArrayBuffer [7]) (Some 0)),
             Tick 1, Destroy]
    in first_decoded evs
         = Some \<lparr>channelData = [[F32 1, F32 2, F32 3, F32 4, F32 5, F32 6, F32 7, F32 8]], frameRate = 8000\<rparr>
       \<and> decodedSampleRate s0 = None \<and> decodedChannels s0 = None
       \<and> effective_rate s0 = 48000 \<and> effective_channels s0 = 2
       \<and> decodedSampleRate (run s0 evs) = Some 8000 \<and> decodedChannels (run s0 evs) = Some 1
       \<and> decodedSampleRate (run (run s0 evs) evs') = Some 8000
       \<and> decodedChannels (run (run s0 evs) evs') = Some 1
       \<and> effective_rate (run s0 evs) = 8000 \<and> effective_channels (run s0 evs) = 1
       \<and> map (\<lambda>e. (buffer_rate (src_buffer e), numberOfChannels (src_buffer e)))
             (drop (length (started (run s0 evs)))
                (started (state_of (flush (run s0 evs) (3 / 2000))))) = [(8000, 1)])"
proof -
  let ?g = "\<lparr>given_encoding = None, given_channels = None,
              given_sampleRate = None, given_flushingTime = Some 1\<rparr>"
  let ?s0 = "create ?g 0"
  let ?data = "JObject (JNumber 1) (JArrayBuffer [7]) (Some 0)"
  let ?d1 = "\<lparr>channelData = [[F32 1, F32 2, F32 3, F32 4, F32 5, F32 6, F32 7, F32 8]], frameRate = 8000\<rparr>"
  let ?evs = "[Feed (\<lambda>p. Inl DecodeError) (JObject (JNumber 1) (JArrayBuffer [7]) (Some 0)),
      Tick 0,
      Feed (\<lambda>p. Inr \<lparr>channelData = [[F32 1, F32 2, F32 3, F32 4, F32 5, F32 6, F32 7, F32 8]], frameRate = 8000\<rparr>)
        (JObject (JNumber 1) (JArrayBuffer [7]) (Some 0)),
      Tick (1 / 1000),
      Feed (\<lambda>p. Inr \<lparr>channelData = [[F32 9, F32 10, F32 11, F32 12, F32 13, F32 14, F32 15, F32 16]], frameRate = 8000\<rparr>)
        (JObject (JNumber 1) (JArrayBuffer [7]) (Some 0))]"
  let ?evs' = "[Feed (\<lambda>p. Inr \<lparr>channelData = [[F32 0], [F32 0]], frameRate = 44100\<rparr>)
               (JObject (JNumber 1) (JArrayBuffer [7]) (Some 0)),
             Tick 1, Destroy]"
  let ?s1 = "run ?s0 ?evs"
  let ?E = "\<lparr>src_buffer = \<lparr>numberOfChannels = 1, buffer_length = 8, buffer_rate = 8000,
                         channel_data = [[F32 9, F32 10, F32 11, F32 12, F32 13, F32 14, F32 15, F32 16]]\<rparr>,
          src_start = 2 / 1000, src_now = 3 / 2000\<rparr>"
  have ta: "isTypedArray ?data" by (simp add: isTypedArray_def)
  have pk: "packet_of ?data = Inr [7]"
    by (simp add: packet_of_def new_Uint8Array_def to_index_def)
  have fd: "first_decoded ?evs = Some ?d1" by (simp add: ta pk)
  have n0: "decodedSampleRate ?s0 = None" "decodedChannels ?s0 = None"
    by (simp_all add: create_def)
  have o0: "sampleRate (option ?s0) = 48000" "channels (option ?s0) = 2"
    by (simp_all add: create_def initOptions_def)
  note t = decoded_format_latched_once[of ?g 0 ?evs]
  note r2 = t[THEN conjunct2] note r3 = r2[THEN conjunct2] note r4 = r3[THEN conjunct2]
  note r5 = r4[THEN conjunct2] note r6 = r5[THEN conjunct2] note r7 = r6[THEN conjunct2]
  have e0: "effective_rate ?s0 = 48000" "effective_channels ?s0 = 2"
    using r6[THEN conjunct1, THEN mp, OF n0(1)] r7[THEN conjunct1, THEN mp, OF n0(2)]
    by (simp_all only: o0)
  have l1: "decodedSampleRate ?s1 = Some 8000" "decodedChannels ?s1 = Some 1"
    using t[THEN conjunct1] r2[THEN conjunct1]
    by (simp_all only: fd option.map decoded.simps) simp_all
  have k: "decodedSampleRate (run ?s1 ?evs') = Some 8000"
    "decodedChannels (run ?s1 ?evs') = Some 1"
    using r3[THEN conjunct1, THEN mp, OF l1(1), of ?evs'] by (simp_all only: l1)
  have p: "0 < (8000::nat)" "0 < (1::nat)" by simp_all
  have e1: "effective_rate ?s1 = 8000" "effective_channels ?s1 = 1"
    using r4[THEN conjunct1, THEN mp, OF conjI[OF l1(1) p(1)]]
          r5[THEN conjunct1, THEN mp, OF conjI[OF l1(2) p(2)]] by simp_all
  have dr: "drop (length (started ?s1)) (started (state_of (flush ?s1 (3 / 2000)))) = [?E]"
    by (simp only: run_before_second_flush second_flush) simp
  have "?E \<in> set (drop (length (started ?s1)) (started (state_of (flush ?s1 (3 / 2000)))))"
    by (simp only: dr) simp
  with r7[THEN conjunct2, of ?s1 "3 / 2000"]
  have "buffer_rate (src_buffer ?E) = effective_rate ?s1
        \<and> numberOfChannels (src_buffer ?E) = effective_channels ?s1" by blast
  then have bf: "map (\<lambda>e. (buffer_rate (src_buffer e), numberOfChannels (src_buffer e)))
             (drop (length (started ?s1)) (started (state_of (flush ?s1 (3 / 2000))))) = [(8000, 1)]"
    by (simp only: dr e1) simp
  from fd n0 e0 l1 k e1 bf show ?thesis unfolding Let_def by (intro conjI)
qed

end
